theory Spec2Isabelle
  imports Main
begin

section \<open>Data model\<close>

text \<open>
  The notification pipeline of the trip platform: the Mongoose model
  \<^verbatim>\<open>models/Notification.ts\<close>, the service \<^verbatim>\<open>utils/notificationService.ts\<close>,
  the notification routes and the trip routes that trigger notifications.

  A \<^verbatim>\<open>Types.ObjectId\<close> is a natural number. A collection is the list of its documents
  in insertion order; \<^verbatim>\<open>_id\<close> is the collection's unique key.
\<close>

type_synonym oid = nat

datatype NotificationType =
  trip_join | trip_leave | trip_update | trip_delete | trip_reminder | system

text \<open>The \<^verbatim>\<open>data\<close> object of a notification; \<^verbatim>\<open>changes\<close> is the one additional key
  the service itself writes (in \<^verbatim>\<open>notifyTripUpdate\<close>).\<close>

record NotificationPayload =
  tripId :: "oid option"
  actorId :: "oid option"
  actorName :: "string option"
  tripTitle :: "string option"
  changes :: "string list option"

definition emptyPayload :: NotificationPayload where
  "emptyPayload =
     \<lparr>tripId = None, actorId = None, actorName = None, tripTitle = None, changes = None\<rparr>"

text \<open>The interface \<^verbatim>\<open>NotificationData\<close>, the argument of \<^verbatim>\<open>createNotification\<close>;
  \<^verbatim>\<open>data\<close> and \<^verbatim>\<open>sendEmail\<close> are optional.\<close>

record NotificationData =
  nd_userId :: oid
  nd_type :: NotificationType
  nd_title :: string
  nd_message :: string
  nd_data :: "NotificationPayload option"
  nd_sendEmail :: "bool option"

text \<open>A stored \<^verbatim>\<open>NotificationDocument\<close>. The timestamps are not modelled: the order of
  \<^verbatim>\<open>createdAt\<close> is the insertion order of the collection.\<close>

record NotificationDocument =
  doc_id :: oid
  userId :: oid
  type :: NotificationType
  title :: string
  message :: string
  data :: NotificationPayload
  read :: bool
  emailSent :: bool

record UserDocument =
  user_id :: oid
  email :: string
  name :: string

text \<open>A \<^verbatim>\<open>TripDocument\<close>, with the fields the notification pipeline reads.\<close>

record TripDocument =
  trip_id :: oid
  organizerId :: oid
  trip_title :: string
  capacity :: nat
  participants :: "oid list"

datatype UserRole = traveler | organizer | admin

record AuthPayload =
  auth_userId :: oid
  auth_role :: UserRole

section \<open>Effects and failures\<close>

text \<open>
  Every awaited call to the database or to the mail transport may reject. Which calls
  reject is a parameter of the model: \<open>throws env c\<close> says that the call \<open>c\<close> rejects.
  A theorem that quantifies over \<open>env\<close> holds for every pattern of such failures.
  The lookups of users and trips are made both by the routes and by the service; the
  call site is part of the call, so that the two may fail independently.
\<close>

datatype site = Route | Service

datatype io_call =
    Notification_create NotificationData
  | Notification_find
  | Notification_findOne
  | Notification_countDocuments
  | Notification_updateMany
  | Notification_findByIdAndUpdate oid
  | Notification_findByIdAndDelete oid
  | User_findById site oid
  | Trip_findById site oid
  | Trip_save oid
  | Trip_findByIdAndDelete oid
  | sendMail NotificationDocument

datatype error =
    Rejected io_call
  | TypeError
  | CastError string
  | InvalidNotificationId string

record env =
  emailTransporter :: bool
  socketIO :: bool
  throws :: "io_call \<Rightarrow> bool"

text \<open>
  The state: the three collections, the supply of fresh ObjectIds, and the traces of the
  side effects: events emitted on the socket (room and payload), mail handed to the
  transport (recipient address and subject) and lines written by \<^verbatim>\<open>console.error\<close>.
\<close>

record state =
  notifications :: "NotificationDocument list"
  trips :: "TripDocument list"
  users :: "UserDocument list"
  nextId :: oid
  emitted :: "(oid \<times> NotificationDocument) list"
  outbox :: "(string \<times> string) list"
  log :: "string list"

definition console_error :: "string \<Rightarrow> state \<Rightarrow> state" where
  "console_error line s = s\<lparr>log := log s @ [line]\<rparr>"

text \<open>
  An \<^verbatim>\<open>async\<close> function returns its outcome, \<open>Inl\<close> for a rejected promise, and the
  state it leaves. \<^verbatim>\<open>try { body } catch (error) { handler }\<close> runs the handler on the
  state the body left when it threw.
\<close>

type_synonym 'a outcome = "(error + 'a) \<times> state"

definition try_catch :: "'a outcome \<Rightarrow> (error \<Rightarrow> state \<Rightarrow> 'a outcome) \<Rightarrow> 'a outcome" where
  "try_catch body handler =
     (case body of (Inl e, s) \<Rightarrow> handler e s | (Inr x, s) \<Rightarrow> (Inr x, s))"

section \<open>NotificationService\<close>

text \<open>\<^verbatim>\<open>Notification.findByIdAndUpdate(id, { emailSent: true })\<close>\<close>

definition markEmailSent :: "oid \<Rightarrow> NotificationDocument list \<Rightarrow> NotificationDocument list" where
  "markEmailSent i ns = map (\<lambda>n. if doc_id n = i then n\<lparr>emailSent := True\<rparr> else n) ns"

text \<open>
  \<^verbatim>\<open>sendEmailNotification\<close>: the whole body is inside \<^verbatim>\<open>try\<close>, and the \<^verbatim>\<open>catch\<close> only
  logs. The rendering of the HTML body (\<^verbatim>\<open>generateEmailContent\<close>) is string templating
  that cannot fail; the mail is recorded by its address and subject.
\<close>

definition sendEmailNotification_body :: "env \<Rightarrow> NotificationDocument \<Rightarrow> state \<Rightarrow> unit outcome" where
  "sendEmailNotification_body env notification s =
     (if throws env (User_findById Service (userId notification))
      then (Inl (Rejected (User_findById Service (userId notification))), s)
      else case find (\<lambda>u. user_id u = userId notification) (users s) of
        None \<Rightarrow> (Inr (), s)
      | Some user \<Rightarrow>
          if throws env (sendMail notification)
          then (Inl (Rejected (sendMail notification)), s)
          else
            let s1 = s\<lparr>outbox := outbox s @ [(email user, title notification)]\<rparr>
            in if throws env (Notification_findByIdAndUpdate (doc_id notification))
               then (Inl (Rejected (Notification_findByIdAndUpdate (doc_id notification))), s1)
               else (Inr (),
                     s1\<lparr>notifications := markEmailSent (doc_id notification) (notifications s1)\<rparr>))"

definition sendEmailNotification :: "env \<Rightarrow> NotificationDocument \<Rightarrow> state \<Rightarrow> unit outcome" where
  "sendEmailNotification env notification s =
     try_catch (sendEmailNotification_body env notification s)
       (\<lambda>e s'. (Inr (), console_error ''Error sending email notification:'' s'))"

text \<open>
  \<^verbatim>\<open>createNotification\<close>: insert, emit on the socket if one is set, mail if requested and
  a transport is configured, return the inserted document. The \<^verbatim>\<open>catch\<close> logs and
  throws the error again.
\<close>

definition newDocument :: "oid \<Rightarrow> NotificationData \<Rightarrow> NotificationDocument" where
  "newDocument i notificationData =
     \<lparr>doc_id = i,
      userId = nd_userId notificationData,
      type = nd_type notificationData,
      title = nd_title notificationData,
      message = nd_message notificationData,
      data = (case nd_data notificationData of None \<Rightarrow> emptyPayload | Some d \<Rightarrow> d),
      read = False,
      emailSent = False\<rparr>"

definition createNotification_body ::
  "env \<Rightarrow> NotificationData \<Rightarrow> state \<Rightarrow> NotificationDocument outcome" where
  "createNotification_body env notificationData s =
     (if throws env (Notification_create notificationData)
      then (Inl (Rejected (Notification_create notificationData)), s)
      else
        let notification = newDocument (nextId s) notificationData;
            s1 = s\<lparr>notifications := notifications s @ [notification], nextId := Suc (nextId s)\<rparr>;
            s2 = (if socketIO env
                  then s1\<lparr>emitted := emitted s1 @ [(nd_userId notificationData, notification)]\<rparr>
                  else s1)
        in if nd_sendEmail notificationData = Some True \<and> emailTransporter env
           then (case sendEmailNotification env notification s2 of
                   (Inl e, s3) \<Rightarrow> (Inl e, s3)
                 | (Inr _, s3) \<Rightarrow> (Inr notification, s3))
           else (Inr notification, s2))"

definition createNotification ::
  "env \<Rightarrow> NotificationData \<Rightarrow> state \<Rightarrow> NotificationDocument outcome" where
  "createNotification env notificationData s =
     try_catch (createNotification_body env notificationData s)
       (\<lambda>e s'. (Inl e, console_error ''Error creating notification:'' s'))"

text \<open>
  \<^verbatim>\<open>await Promise.all(xs.map(createNotification))\<close>: \<^verbatim>\<open>map\<close> starts every call. The
  combined promise fulfils when every create has fulfilled, and rejects as soon as one
  create rejects; awaiting it gives control back at that moment, and the creates that have
  not settled by then stay in flight: they take effect after the caller has gone on, and
  nobody reads their results. The model fixes one schedule, in which the creates settle
  one after the other in list order. \<open>awaitAll\<close> gives the outcome of the combined
  promise, the state at the moment it settles and the creates still in flight;
  \<open>createAll\<close> lets a list of creates settle and \<open>settle\<close> is the state they leave.
\<close>

fun awaitAll ::
  "env \<Rightarrow> NotificationData list \<Rightarrow> state
     \<Rightarrow> (error + NotificationDocument list) \<times> state \<times> NotificationData list" where
  "awaitAll env [] s = (Inr [], s, [])"
| "awaitAll env (d # ds) s =
     (case createNotification env d s of
        (Inl e, s1) \<Rightarrow> (Inl e, s1, ds)
      | (Inr n, s1) \<Rightarrow>
          (case awaitAll env ds s1 of
             (Inl e, s2, pending) \<Rightarrow> (Inl e, s2, pending)
           | (Inr ns, s2, pending) \<Rightarrow> (Inr (n # ns), s2, pending)))"

definition in_flight :: "env \<Rightarrow> NotificationData list \<Rightarrow> state \<Rightarrow> NotificationData list" where
  "in_flight env ds s = snd (snd (awaitAll env ds s))"

fun createAll ::
  "env \<Rightarrow> NotificationData list \<Rightarrow> state \<Rightarrow> (error + NotificationDocument) list \<times> state" where
  "createAll env [] s = ([], s)"
| "createAll env (d # ds) s =
     (case createNotification env d s of (r, s1) \<Rightarrow>
        (case createAll env ds s1 of (rs, s2) \<Rightarrow> (r # rs, s2)))"

definition settle :: "env \<Rightarrow> NotificationData list \<Rightarrow> state \<Rightarrow> state" where
  "settle env pending s = snd (createAll env pending s)"

text \<open>Numbers and lists interpolated into template strings.\<close>

fun string_of_digit :: "nat \<Rightarrow> char" where
  "string_of_digit d = ''0123456789'' ! (d mod 10)"

fun string_of_nat :: "nat \<Rightarrow> string" where
  "string_of_nat n =
     (if n < 10 then [string_of_digit n] else string_of_nat (n div 10) @ [string_of_digit n])"

fun join :: "string \<Rightarrow> string list \<Rightarrow> string" where
  "join sep [] = []"
| "join sep [x] = x"
| "join sep (x # y # ys) = x @ sep @ join sep (y # ys)"

definition quoted :: "string \<Rightarrow> string" where
  "quoted str = [CHR 0x22] @ str @ [CHR 0x22]"

text \<open>The event builders. Each has its whole body inside \<^verbatim>\<open>try\<close>, with a \<^verbatim>\<open>catch\<close>
  that only logs. \<^verbatim>\<open>populate('organizerId')\<close> leaves \<^verbatim>\<open>null\<close> when the organizer's
  account is gone, and reading \<^verbatim>\<open>trip.organizerId._id\<close> then throws a TypeError.\<close>

definition tripJoinData :: "TripDocument \<Rightarrow> UserDocument \<Rightarrow> string \<Rightarrow> oid \<Rightarrow> NotificationData" where
  "tripJoinData trip org travelerName travelerId =
     \<lparr>nd_userId = user_id org,
      nd_type = trip_join,
      nd_title = ''New Traveler Joined Your Trip'',
      nd_message = travelerName @ '' has joined your trip '' @ quoted (trip_title trip)
         @ ''. You now have '' @ string_of_nat (length (participants trip)) @ '' participants.'',
      nd_data = Some \<lparr>tripId = Some (trip_id trip), actorId = Some travelerId,
                      actorName = Some travelerName, tripTitle = Some (trip_title trip),
                      changes = None\<rparr>,
      nd_sendEmail = Some True\<rparr>"

definition tripLeaveData :: "TripDocument \<Rightarrow> UserDocument \<Rightarrow> string \<Rightarrow> oid \<Rightarrow> NotificationData" where
  "tripLeaveData trip org travelerName travelerId =
     \<lparr>nd_userId = user_id org,
      nd_type = trip_leave,
      nd_title = ''Traveler Left Your Trip'',
      nd_message = travelerName @ '' has left your trip '' @ quoted (trip_title trip)
         @ ''. You now have '' @ string_of_nat (length (participants trip)) @ '' participants.'',
      nd_data = Some \<lparr>tripId = Some (trip_id trip), actorId = Some travelerId,
                      actorName = Some travelerName, tripTitle = Some (trip_title trip),
                      changes = None\<rparr>,
      nd_sendEmail = Some True\<rparr>"

definition notifyTrip_body ::
  "(TripDocument \<Rightarrow> UserDocument \<Rightarrow> NotificationData) \<Rightarrow> env \<Rightarrow> oid \<Rightarrow> state \<Rightarrow> unit outcome" where
  "notifyTrip_body build env tid s =
     (if throws env (Trip_findById Service tid)
      then (Inl (Rejected (Trip_findById Service tid)), s)
      else case find (\<lambda>t. trip_id t = tid) (trips s) of
        None \<Rightarrow> (Inr (), s)
      | Some trip \<Rightarrow>
          (case find (\<lambda>u. user_id u = organizerId trip) (users s) of
             None \<Rightarrow> (Inl TypeError, s)
           | Some org \<Rightarrow>
               (case createNotification env (build trip org) s of
                  (Inl e, s1) \<Rightarrow> (Inl e, s1)
                | (Inr _, s1) \<Rightarrow> (Inr (), s1))))"

definition notifyTripJoin :: "env \<Rightarrow> oid \<Rightarrow> string \<Rightarrow> oid \<Rightarrow> state \<Rightarrow> unit outcome" where
  "notifyTripJoin env tid travelerName travelerId s =
     try_catch
       (notifyTrip_body (\<lambda>trip org. tripJoinData trip org travelerName travelerId) env tid s)
       (\<lambda>e s'. (Inr (), console_error ''Error notifying trip join:'' s'))"

definition notifyTripLeave :: "env \<Rightarrow> oid \<Rightarrow> string \<Rightarrow> oid \<Rightarrow> state \<Rightarrow> unit outcome" where
  "notifyTripLeave env tid travelerName travelerId s =
     try_catch
       (notifyTrip_body (\<lambda>trip org. tripLeaveData trip org travelerName travelerId) env tid s)
       (\<lambda>e s'. (Inr (), console_error ''Error notifying trip leave:'' s'))"

definition tripDeletedData :: "oid \<Rightarrow> string \<Rightarrow> string \<Rightarrow> oid \<Rightarrow> NotificationData" where
  "tripDeletedData tid ttitle organizerName participantId =
     \<lparr>nd_userId = participantId,
      nd_type = trip_delete,
      nd_title = ''Trip Cancelled'',
      nd_message = ''The trip '' @ quoted ttitle
         @ '' has been cancelled by the organizer '' @ organizerName
         @ ''. We apologize for any inconvenience.'',
      nd_data = Some \<lparr>tripId = Some tid, actorId = None, actorName = Some organizerName,
                      tripTitle = Some ttitle, changes = None\<rparr>,
      nd_sendEmail = Some True\<rparr>"

definition tripUpdateData :: "oid \<Rightarrow> string \<Rightarrow> string \<Rightarrow> string list \<Rightarrow> oid \<Rightarrow> NotificationData" where
  "tripUpdateData tid ttitle organizerName changeList participantId =
     \<lparr>nd_userId = participantId,
      nd_type = trip_update,
      nd_title = ''Trip Updated'',
      nd_message = ''The trip '' @ quoted ttitle @ '' has been updated by '' @ organizerName
         @ ''. Changes: '' @ join '', '' changeList,
      nd_data = Some \<lparr>tripId = Some tid, actorId = None, actorName = Some organizerName,
                      tripTitle = Some ttitle, changes = Some changeList\<rparr>,
      nd_sendEmail = Some False\<rparr>"

text \<open>The body of the two fan-out builders: the notifications are built and
  \<^verbatim>\<open>Promise.all\<close> of their creation is awaited. When a create rejects, the body throws
  at that moment, with the later creates still in flight.\<close>

definition fanOut_body :: "env \<Rightarrow> NotificationData list \<Rightarrow> state \<Rightarrow> unit outcome" where
  "fanOut_body env notificationDatas s =
     (case awaitAll env notificationDatas s of
        (Inl e, s1, pending) \<Rightarrow> (Inl e, s1)
      | (Inr _, s1, pending) \<Rightarrow> (Inr (), s1))"

definition notifyTripDeleted ::
  "env \<Rightarrow> oid \<Rightarrow> string \<Rightarrow> oid list \<Rightarrow> string \<Rightarrow> state \<Rightarrow> unit outcome" where
  "notifyTripDeleted env tid ttitle participantIds organizerName s =
     try_catch
       (fanOut_body env (map (tripDeletedData tid ttitle organizerName) participantIds) s)
       (\<lambda>e s'. (Inr (), console_error ''Error notifying trip deletion:'' s'))"

definition notifyTripUpdate ::
  "env \<Rightarrow> oid \<Rightarrow> string \<Rightarrow> oid list \<Rightarrow> string \<Rightarrow> string list \<Rightarrow> state \<Rightarrow> unit outcome" where
  "notifyTripUpdate env tid ttitle participantIds organizerName changeList s =
     try_catch
       (fanOut_body env (map (tripUpdateData tid ttitle organizerName changeList) participantIds) s)
       (\<lambda>e s'. (Inr (), console_error ''Error notifying trip update:'' s'))"

text \<open>\<^verbatim>\<open>getUnreadCount\<close>, \<^verbatim>\<open>markAsRead\<close> and \<^verbatim>\<open>getUserNotifications\<close>.\<close>

definition countUnread :: "oid \<Rightarrow> NotificationDocument list \<Rightarrow> nat" where
  "countUnread u ns = length (filter (\<lambda>n. userId n = u \<and> \<not> read n) ns)"

definition getUnreadCount :: "env \<Rightarrow> oid \<Rightarrow> state \<Rightarrow> nat outcome" where
  "getUnreadCount env u s =
     (if throws env Notification_countDocuments
      then (Inl (Rejected Notification_countDocuments), s)
      else (Inr (countUnread u (notifications s)), s))"

text \<open>\<^verbatim>\<open>markAsRead\<close> updates by \<^verbatim>\<open>_id\<close> alone and returns nothing.\<close>

definition markAsRead :: "env \<Rightarrow> oid list \<Rightarrow> state \<Rightarrow> unit outcome" where
  "markAsRead env notificationIds s =
     (if throws env Notification_updateMany
      then (Inl (Rejected Notification_updateMany), s)
      else (Inr (),
            s\<lparr>notifications :=
                 map (\<lambda>n. if doc_id n \<in> set notificationIds then n\<lparr>read := True\<rparr> else n)
                   (notifications s)\<rparr>))"

text \<open>
  The object \<^verbatim>\<open>getUserNotifications\<close> returns. \<^verbatim>\<open>pagination\<close> is the object literal
  with the keys \<^verbatim>\<open>page\<close>, \<^verbatim>\<open>limit\<close>, \<^verbatim>\<open>total\<close> and \<^verbatim>\<open>pages\<close>, kept as the list of its
  keys and values. \<^verbatim>\<open>Math.ceil(total / limit)\<close> is computed on integers.

  The model covers \<open>page \<ge> 1\<close> and \<open>limit \<ge> 1\<close>. What a negative \<^verbatim>\<open>skip\<close> or a
  \<^verbatim>\<open>limit\<close> below one does is decided by the database driver and not by this code;
  there the model gives \<open>None\<close>.
\<close>

record UserNotifications =
  un_notifications :: "NotificationDocument list"
  pagination :: "(string \<times> int) list"
  unreadCount :: nat

definition getUserNotifications ::
  "env \<Rightarrow> oid \<Rightarrow> int \<Rightarrow> int \<Rightarrow> state \<Rightarrow> (UserNotifications outcome) option" where
  "getUserNotifications env u page limit s =
     (if page < 1 \<or> limit < 1 then None
      else Some
        (let skip = (page - 1) * limit in
         if throws env Notification_find then (Inl (Rejected Notification_find), s)
         else
           let notifs = take (nat limit) (drop (nat skip)
                          (rev (filter (\<lambda>n. userId n = u) (notifications s))))
           in if throws env Notification_countDocuments
              then (Inl (Rejected Notification_countDocuments), s)
              else
                let total = int (length (filter (\<lambda>n. userId n = u) (notifications s)))
                in (case getUnreadCount env u s of
                      (Inl e, s1) \<Rightarrow> (Inl e, s1)
                    | (Inr unread, s1) \<Rightarrow>
                        (Inr \<lparr>un_notifications = notifs,
                              pagination = [(''page'', page), (''limit'', limit), (''total'', total),
                                            (''pages'', (total + limit - 1) div limit)],
                              unreadCount = unread\<rparr>, s1))))"

section \<open>HTTP layer\<close>

text \<open>
  A response is its status and the JSON object sent. \<open>JMessageOf e\<close> stands for the string
  \<^verbatim>\<open>error.message\<close> of the caught error \<open>e\<close>. The handlers run behind
  \<^verbatim>\<open>authenticateJwt\<close>: the request carries the verified \<^verbatim>\<open>AuthPayload\<close>.
  An id taken from the request is a string; \<open>ValidId i\<close> is a string that
  \<^verbatim>\<open>Types.ObjectId\<close> accepts, denoting \<open>i\<close>, and \<open>InvalidId str\<close> one that it rejects.
\<close>

datatype json =
    JString string
  | JNumber nat
  | JBool bool
  | JId oid
  | JMessageOf error
  | JArray "json list"
  | JObject "(string \<times> json) list"

record response =
  status :: nat
  body :: "(string \<times> json) list"

datatype id_param = ValidId oid | InvalidId string

subsection \<open>Notification routes\<close>

fun toObjectIds :: "id_param list \<Rightarrow> error + oid list" where
  "toObjectIds [] = Inr []"
| "toObjectIds (InvalidId str # ids) = Inl (InvalidNotificationId str)"
| "toObjectIds (ValidId i # ids) =
     (case toObjectIds ids of Inl e \<Rightarrow> Inl e | Inr objectIds \<Rightarrow> Inr (i # objectIds))"

text \<open>\<^verbatim>\<open>router.put('/mark-read')\<close>. The request body is the array \<^verbatim>\<open>notificationIds\<close>;
  the schema asks for at least one element.\<close>

definition mark_read_body :: "env \<Rightarrow> AuthPayload \<Rightarrow> id_param list \<Rightarrow> state \<Rightarrow> response outcome" where
  "mark_read_body env auth notificationIds s =
     (if notificationIds = []
      then (Inr \<lparr>status = 400,
                 body = [(''error'', JString ''Validation failed''),
                         (''details'', JObject [(''notificationIds'',
                            JArray [JString ''At least one notification ID is required''])])]\<rparr>, s)
      else case toObjectIds notificationIds of
        Inl e \<Rightarrow> (Inl e, s)
      | Inr objectIds \<Rightarrow>
          if throws env Notification_find then (Inl (Rejected Notification_find), s)
          else
            let found = filter (\<lambda>n. doc_id n \<in> set objectIds \<and> userId n = auth_userId auth)
                          (notifications s)
            in if length found \<noteq> length objectIds
               then (Inr \<lparr>status = 403,
                          body = [(''error'',
                            JString ''Some notifications do not belong to you or do not exist'')]\<rparr>, s)
               else (case markAsRead env objectIds s of
                       (Inl e, s1) \<Rightarrow> (Inl e, s1)
                     | (Inr _, s1) \<Rightarrow>
                         (Inr \<lparr>status = 200,
                               body = [(''success'', JBool True),
                                       (''message'', JString (string_of_nat (length objectIds)
                                          @ '' notifications marked as read''))]\<rparr>, s1)))"

definition mark_read_route :: "env \<Rightarrow> AuthPayload \<Rightarrow> id_param list \<Rightarrow> state \<Rightarrow> response \<times> state" where
  "mark_read_route env auth notificationIds s =
     (case mark_read_body env auth notificationIds s of
        (Inl e, s1) \<Rightarrow>
          (\<lparr>status = 500,
            body = [(''error'', JString ''Failed to mark notifications as read''),
                    (''details'', JMessageOf e)]\<rparr>,
           console_error ''Error marking notifications as read:'' s1)
      | (Inr r, s1) \<Rightarrow> (r, s1))"

text \<open>\<^verbatim>\<open>router.put('/mark-all-read')\<close>; the count is \<^verbatim>\<open>result.modifiedCount\<close>.\<close>

definition mark_all_read_body :: "env \<Rightarrow> AuthPayload \<Rightarrow> state \<Rightarrow> response outcome" where
  "mark_all_read_body env auth s =
     (if throws env Notification_updateMany then (Inl (Rejected Notification_updateMany), s)
      else
        let modifiedCount = countUnread (auth_userId auth) (notifications s)
        in (Inr \<lparr>status = 200,
                 body = [(''success'', JBool True),
                         (''message'', JString (string_of_nat modifiedCount
                            @ '' notifications marked as read''))]\<rparr>,
            s\<lparr>notifications :=
                 map (\<lambda>n. if userId n = auth_userId auth \<and> \<not> read n then n\<lparr>read := True\<rparr> else n)
                   (notifications s)\<rparr>))"

definition mark_all_read_route :: "env \<Rightarrow> AuthPayload \<Rightarrow> state \<Rightarrow> response \<times> state" where
  "mark_all_read_route env auth s =
     (case mark_all_read_body env auth s of
        (Inl e, s1) \<Rightarrow>
          (\<lparr>status = 500,
            body = [(''error'', JString ''Failed to mark all notifications as read''),
                    (''details'', JMessageOf e)]\<rparr>,
           console_error ''Error marking all notifications as read:'' s1)
      | (Inr r, s1) \<Rightarrow> (r, s1))"

text \<open>\<^verbatim>\<open>router.delete('/:id')\<close> of the notification routes.\<close>

definition delete_notification_body :: "env \<Rightarrow> AuthPayload \<Rightarrow> id_param \<Rightarrow> state \<Rightarrow> response outcome" where
  "delete_notification_body env auth notificationId s =
     (case notificationId of
        InvalidId str \<Rightarrow>
          (Inr \<lparr>status = 400, body = [(''error'', JString ''Invalid notification ID'')]\<rparr>, s)
      | ValidId i \<Rightarrow>
          if throws env Notification_findOne then (Inl (Rejected Notification_findOne), s)
          else case find (\<lambda>n. doc_id n = i \<and> userId n = auth_userId auth) (notifications s) of
            None \<Rightarrow>
              (Inr \<lparr>status = 404,
                    body = [(''error'',
                      JString ''Notification not found or does not belong to you'')]\<rparr>, s)
          | Some notification \<Rightarrow>
              if throws env (Notification_findByIdAndDelete i)
              then (Inl (Rejected (Notification_findByIdAndDelete i)), s)
              else (Inr \<lparr>status = 200,
                         body = [(''success'', JBool True),
                                 (''message'', JString ''Notification deleted successfully'')]\<rparr>,
                    s\<lparr>notifications := filter (\<lambda>n. doc_id n \<noteq> i) (notifications s)\<rparr>))"

definition delete_notification_route :: "env \<Rightarrow> AuthPayload \<Rightarrow> id_param \<Rightarrow> state \<Rightarrow> response \<times> state" where
  "delete_notification_route env auth notificationId s =
     (case delete_notification_body env auth notificationId s of
        (Inl e, s1) \<Rightarrow>
          (\<lparr>status = 500,
            body = [(''error'', JString ''Failed to delete notification''),
                    (''details'', JMessageOf e)]\<rparr>,
           console_error ''Error deleting notification:'' s1)
      | (Inr r, s1) \<Rightarrow> (r, s1))"

subsection \<open>Trip routes\<close>

text \<open>\<^verbatim>\<open>Trip.findById(req.params.id)\<close>: a string that is no ObjectId makes the query throw
  a CastError.\<close>

definition findTrip :: "env \<Rightarrow> id_param \<Rightarrow> state \<Rightarrow> error + TripDocument option" where
  "findTrip env tripParam s =
     (case tripParam of
        InvalidId str \<Rightarrow> Inl (CastError str)
      | ValidId i \<Rightarrow>
          if throws env (Trip_findById Route i) then Inl (Rejected (Trip_findById Route i))
          else Inr (find (\<lambda>t. trip_id t = i) (trips s)))"

definition saveTrip :: "TripDocument \<Rightarrow> state \<Rightarrow> state" where
  "saveTrip trip s = s\<lparr>trips := map (\<lambda>t. if trip_id t = trip_id trip then trip else t) (trips s)\<rparr>"

definition tripSummary :: "TripDocument \<Rightarrow> json" where
  "tripSummary trip =
     JObject [(''id'', JId (trip_id trip)), (''title'', JString (trip_title trip)),
              (''participantCount'', JNumber (length (participants trip))),
              (''capacity'', JNumber (capacity trip))]"

text \<open>\<^verbatim>\<open>router.post('/:id/join')\<close>\<close>

definition trip_join_body :: "env \<Rightarrow> AuthPayload \<Rightarrow> id_param \<Rightarrow> state \<Rightarrow> response outcome" where
  "trip_join_body env auth tripParam s =
     (case findTrip env tripParam s of
        Inl e \<Rightarrow> (Inl e, s)
      | Inr None \<Rightarrow> (Inr \<lparr>status = 404, body = [(''error'', JString ''Trip not found'')]\<rparr>, s)
      | Inr (Some trip) \<Rightarrow>
          if length (participants trip) \<ge> capacity trip
          then (Inr \<lparr>status = 400, body = [(''error'', JString ''Trip is full'')]\<rparr>, s)
          else if auth_userId auth \<in> set (participants trip)
          then (Inr \<lparr>status = 400, body = [(''error'', JString ''Already joined this trip'')]\<rparr>, s)
          else if throws env (User_findById Route (auth_userId auth))
          then (Inl (Rejected (User_findById Route (auth_userId auth))), s)
          else case find (\<lambda>u. user_id u = auth_userId auth) (users s) of
            None \<Rightarrow> (Inr \<lparr>status = 404, body = [(''error'', JString ''User not found'')]\<rparr>, s)
          | Some travelerDoc \<Rightarrow>
              if throws env (Trip_save (trip_id trip))
              then (Inl (Rejected (Trip_save (trip_id trip))), s)
              else
                let trip' = trip\<lparr>participants := participants trip @ [auth_userId auth]\<rparr>
                in (case notifyTripJoin env (trip_id trip') (name travelerDoc) (auth_userId auth)
                          (saveTrip trip' s) of
                      (Inl e, s1) \<Rightarrow> (Inl e, s1)
                    | (Inr _, s1) \<Rightarrow>
                        (Inr \<lparr>status = 200,
                              body = [(''message'', JString ''Successfully joined trip''),
                                      (''trip'', tripSummary trip')]\<rparr>, s1)))"

definition trip_join_route :: "env \<Rightarrow> AuthPayload \<Rightarrow> id_param \<Rightarrow> state \<Rightarrow> response \<times> state" where
  "trip_join_route env auth tripParam s =
     (case trip_join_body env auth tripParam s of
        (Inl e, s1) \<Rightarrow>
          (\<lparr>status = 500, body = [(''error'', JString ''Server error'')]\<rparr>,
           console_error ''Error joining trip:'' s1)
      | (Inr r, s1) \<Rightarrow> (r, s1))"

text \<open>\<^verbatim>\<open>router.delete('/:id/leave')\<close>\<close>

definition trip_leave_body :: "env \<Rightarrow> AuthPayload \<Rightarrow> id_param \<Rightarrow> state \<Rightarrow> response outcome" where
  "trip_leave_body env auth tripParam s =
     (case findTrip env tripParam s of
        Inl e \<Rightarrow> (Inl e, s)
      | Inr None \<Rightarrow> (Inr \<lparr>status = 404, body = [(''error'', JString ''Trip not found'')]\<rparr>, s)
      | Inr (Some trip) \<Rightarrow>
          if auth_userId auth \<notin> set (participants trip)
          then (Inr \<lparr>status = 400, body = [(''error'', JString ''Not part of this trip'')]\<rparr>, s)
          else if throws env (User_findById Route (auth_userId auth))
          then (Inl (Rejected (User_findById Route (auth_userId auth))), s)
          else case find (\<lambda>u. user_id u = auth_userId auth) (users s) of
            None \<Rightarrow> (Inr \<lparr>status = 404, body = [(''error'', JString ''User not found'')]\<rparr>, s)
          | Some travelerDoc \<Rightarrow>
              if throws env (Trip_save (trip_id trip))
              then (Inl (Rejected (Trip_save (trip_id trip))), s)
              else
                let trip' = trip\<lparr>participants :=
                                   filter (\<lambda>p. p \<noteq> auth_userId auth) (participants trip)\<rparr>
                in (case notifyTripLeave env (trip_id trip') (name travelerDoc) (auth_userId auth)
                          (saveTrip trip' s) of
                      (Inl e, s1) \<Rightarrow> (Inl e, s1)
                    | (Inr _, s1) \<Rightarrow>
                        (Inr \<lparr>status = 200,
                              body = [(''message'', JString ''Successfully left trip''),
                                      (''trip'', tripSummary trip')]\<rparr>, s1)))"

definition trip_leave_route :: "env \<Rightarrow> AuthPayload \<Rightarrow> id_param \<Rightarrow> state \<Rightarrow> response \<times> state" where
  "trip_leave_route env auth tripParam s =
     (case trip_leave_body env auth tripParam s of
        (Inl e, s1) \<Rightarrow>
          (\<lparr>status = 500, body = [(''error'', JString ''Server error'')]\<rparr>,
           console_error ''Error leaving trip:'' s1)
      | (Inr r, s1) \<Rightarrow> (r, s1))"

text \<open>\<^verbatim>\<open>router.delete('/:id')\<close> of the trip routes, behind
  \<^verbatim>\<open>requireRole(['organizer','admin'])\<close>. The state given with the response is the
  state at the moment the response is sent: creates that the fan-out left in flight settle
  after it.\<close>

definition trip_delete_body :: "env \<Rightarrow> AuthPayload \<Rightarrow> id_param \<Rightarrow> state \<Rightarrow> response outcome" where
  "trip_delete_body env auth tripParam s =
     (case findTrip env tripParam s of
        Inl e \<Rightarrow> (Inl e, s)
      | Inr None \<Rightarrow> (Inr \<lparr>status = 404, body = [(''error'', JString ''Trip not found'')]\<rparr>, s)
      | Inr (Some trip) \<Rightarrow>
          (case find (\<lambda>u. user_id u = organizerId trip) (users s) of
             None \<Rightarrow> (Inl TypeError, s)
           | Some org \<Rightarrow>
               if user_id org \<noteq> auth_userId auth \<and> auth_role auth \<noteq> admin
               then (Inr \<lparr>status = 403,
                          body = [(''error'', JString ''Not authorized to delete this trip'')]\<rparr>, s)
               else
                 let tripTitle' = trip_title trip;
                     participantIds = participants trip;
                     organizerName = (if name org = [] then ''Organizer'' else name org)
                 in if throws env (Trip_findByIdAndDelete (trip_id trip))
                    then (Inl (Rejected (Trip_findByIdAndDelete (trip_id trip))), s)
                    else
                      let s1 = s\<lparr>trips := filter (\<lambda>t. trip_id t \<noteq> trip_id trip) (trips s)\<rparr>
                      in (case (if length participantIds > 0
                                then notifyTripDeleted env (trip_id trip) tripTitle' participantIds
                                       organizerName s1
                                else (Inr (), s1)) of
                            (Inl e, s2) \<Rightarrow> (Inl e, s2)
                          | (Inr _, s2) \<Rightarrow>
                              (Inr \<lparr>status = 200,
                                    body = [(''message'', JString ''Trip deleted successfully''),
                                            (''notifiedParticipants'',
                                               JNumber (length participantIds))]\<rparr>, s2))))"

definition requireRole :: "UserRole list \<Rightarrow> AuthPayload \<Rightarrow> bool" where
  "requireRole roles payload = (auth_role payload \<in> set roles)"

definition trip_delete_route :: "env \<Rightarrow> AuthPayload \<Rightarrow> id_param \<Rightarrow> state \<Rightarrow> response \<times> state" where
  "trip_delete_route env auth tripParam s =
     (if \<not> requireRole [organizer, admin] auth
      then (\<lparr>status = 403, body = [(''error'', JString ''Forbidden'')]\<rparr>, s)
      else case trip_delete_body env auth tripParam s of
        (Inl e, s1) \<Rightarrow>
          (\<lparr>status = 500, body = [(''error'', JString ''Failed to delete trip'')]\<rparr>,
           console_error ''Error deleting trip:'' s1)
      | (Inr r, s1) \<Rightarrow> (r, s1))"

section \<open>Notions used in the properties\<close>

text \<open>A document with its \<^verbatim>\<open>emailSent\<close> flag put aside: two documents that agree
  after \<open>forgetEmail\<close> differ at most in that flag.\<close>

definition forgetEmail :: "NotificationDocument \<Rightarrow> NotificationDocument" where
  "forgetEmail n = n\<lparr>emailSent := False\<rparr>"

text \<open>The database accepts the insert of this notification.\<close>

definition accepted :: "env \<Rightarrow> NotificationData \<Rightarrow> bool" where
  "accepted env d = (\<not> throws env (Notification_create d))"

text \<open>The email dispatch for this notification fails: the lookup of the recipient
  rejects, or the recipient exists and the transport or the update of the flag rejects.
  (A recipient that does not exist makes the dispatch return, with nothing sent.)\<close>

definition email_fails :: "env \<Rightarrow> UserDocument list \<Rightarrow> NotificationDocument \<Rightarrow> bool" where
  "email_fails env us n =
     (throws env (User_findById Service (userId n))
      \<or> (find (\<lambda>u. user_id u = userId n) us \<noteq> None
          \<and> (throws env (sendMail n) \<or> throws env (Notification_findByIdAndUpdate (doc_id n)))))"

text \<open>The lines that the email dispatches of successive accepted creates write in the
  log, the first create getting the fresh id \<open>i\<close>: one line for each dispatch that is
  attempted and fails.\<close>

fun emailLines :: "env \<Rightarrow> UserDocument list \<Rightarrow> oid \<Rightarrow> NotificationData list \<Rightarrow> string list" where
  "emailLines env us i [] = []"
| "emailLines env us i (d # ds) =
     (if nd_sendEmail d = Some True \<and> emailTransporter env \<and> email_fails env us (newDocument i d)
      then [''Error sending email notification:''] else [])
     @ emailLines env us (Suc i) ds"

text \<open>The state once the creates that a fan-out builder left in flight have settled.\<close>

definition tripDeleted_settled ::
  "env \<Rightarrow> oid \<Rightarrow> string \<Rightarrow> oid list \<Rightarrow> string \<Rightarrow> state \<Rightarrow> state" where
  "tripDeleted_settled env tid ttitle participantIds organizerName s =
     settle env (in_flight env (map (tripDeletedData tid ttitle organizerName) participantIds) s)
       (snd (notifyTripDeleted env tid ttitle participantIds organizerName s))"

definition tripUpdate_settled ::
  "env \<Rightarrow> oid \<Rightarrow> string \<Rightarrow> oid list \<Rightarrow> string \<Rightarrow> string list \<Rightarrow> state \<Rightarrow> state" where
  "tripUpdate_settled env tid ttitle participantIds organizerName changeList s =
     settle env
       (in_flight env (map (tripUpdateData tid ttitle organizerName changeList) participantIds) s)
       (snd (notifyTripUpdate env tid ttitle participantIds organizerName changeList s))"

text \<open>The documents that successive inserts produce, starting from the fresh id \<open>i\<close>.\<close>

fun newDocuments :: "oid \<Rightarrow> NotificationData list \<Rightarrow> NotificationDocument list" where
  "newDocuments i [] = []"
| "newDocuments i (d # ds) = newDocument i d # newDocuments (Suc i) ds"

text \<open>Two environments in which the calls made by the trip routes themselves fail alike;
  they may differ in every call made by the notification service.\<close>

definition same_route_calls :: "env \<Rightarrow> env \<Rightarrow> bool" where
  "same_route_calls env env' =
     (\<forall>i. throws env (Trip_findById Route i) = throws env' (Trip_findById Route i)
        \<and> throws env (User_findById Route i) = throws env' (User_findById Route i)
        \<and> throws env (Trip_save i) = throws env' (Trip_save i)
        \<and> throws env (Trip_findByIdAndDelete i) = throws env' (Trip_findByIdAndDelete i))"

subsection \<open>Concrete environments and states\<close>

definition quiet_env :: env where
  "quiet_env = \<lparr>emailTransporter = True, socketIO = True, throws = (\<lambda>c. False)\<rparr>"

definition no_transport_env :: env where
  "no_transport_env = \<lparr>emailTransporter = False, socketIO = True, throws = (\<lambda>c. False)\<rparr>"

text \<open>The mail transport fails for recipient 2.\<close>

definition mail_fails_env :: env where
  "mail_fails_env = \<lparr>emailTransporter = True, socketIO = True,
     throws = (\<lambda>c. case c of sendMail n \<Rightarrow> userId n = 2 | _ \<Rightarrow> False)\<rparr>"

text \<open>The database rejects every insert for recipient 2.\<close>

definition insert_fails_env :: env where
  "insert_fails_env = \<lparr>emailTransporter = True, socketIO = True,
     throws = (\<lambda>c. case c of Notification_create d \<Rightarrow> nd_userId d = 2 | _ \<Rightarrow> False)\<rparr>"

text \<open>Every call of the notification service fails.\<close>

definition service_down_env :: env where
  "service_down_env = \<lparr>emailTransporter = True, socketIO = True,
     throws = (\<lambda>c. case c of
        Trip_findById st i \<Rightarrow> st = Service
      | User_findById st i \<Rightarrow> st = Service
      | Trip_save i \<Rightarrow> False
      | Trip_findByIdAndDelete i \<Rightarrow> False
      | _ \<Rightarrow> True)\<rparr>"

definition three_users :: "UserDocument list" where
  "three_users = [\<lparr>user_id = 1, email = ''a@example.org'', name = ''A''\<rparr>,
                  \<lparr>user_id = 2, email = ''b@example.org'', name = ''B''\<rparr>,
                  \<lparr>user_id = 3, email = ''c@example.org'', name = ''C''\<rparr>]"

text \<open>No trips and no notifications.\<close>

definition empty_state :: state where
  "empty_state = \<lparr>notifications = [], trips = [], users = three_users,
     nextId = 10, emitted = [], outbox = [], log = []\<rparr>"

text \<open>Trip 5 of organizer 1, with participant 2; trip 6 of organizer 2; trip 8, whose
  organizer 9 has no account.\<close>

definition trip_state :: state where
  "trip_state = \<lparr>notifications = [],
     trips = [\<lparr>trip_id = 5, organizerId = 1, trip_title = ''Alps'', capacity = 10,
               participants = [2]\<rparr>,
              \<lparr>trip_id = 6, organizerId = 2, trip_title = ''Fjords'', capacity = 10,
               participants = [3]\<rparr>,
              \<lparr>trip_id = 8, organizerId = 9, trip_title = ''Dunes'', capacity = 10,
               participants = []\<rparr>],
     users = three_users, nextId = 10, emitted = [], outbox = [], log = []\<rparr>"

definition welcome_note :: NotificationData where
  "welcome_note = \<lparr>nd_userId = 1, nd_type = system, nd_title = ''Welcome'', nd_message = ''Hello'',
     nd_data = None, nd_sendEmail = Some True\<rparr>"

text \<open>A plain notification for recipient \<open>u\<close>.\<close>

definition plain_note :: "oid \<Rightarrow> oid \<Rightarrow> bool \<Rightarrow> NotificationDocument" where
  "plain_note i u r = \<lparr>doc_id = i, userId = u, type = system, title = ''Note'', message = ''Text'',
     data = emptyPayload, read = r, emailSent = False\<rparr>"

text \<open>Recipient 1 has five unread notifications (ids 0 to 4) and three read ones
  (ids 5 to 7); notification 20 belongs to recipient 2.\<close>

definition inbox_state :: state where
  "inbox_state = \<lparr>notifications =
       [plain_note 0 1 False, plain_note 1 1 False, plain_note 2 1 False, plain_note 3 1 False, plain_note 4 1 False,
        plain_note 5 1 True, plain_note 6 1 True, plain_note 7 1 True, plain_note 20 2 False],
     trips = [], users = three_users, nextId = 21, emitted = [], outbox = [], log = []\<rparr>"

text \<open>The same without notification 20.\<close>

definition inbox_state' :: state where
  "inbox_state' = \<lparr>notifications =
       [plain_note 0 1 False, plain_note 1 1 False, plain_note 2 1 False, plain_note 3 1 False, plain_note 4 1 False,
        plain_note 5 1 True, plain_note 6 1 True, plain_note 7 1 True],
     trips = [], users = three_users, nextId = 21, emitted = [], outbox = [], log = []\<rparr>"

text \<open>Recipient 1 has 45 notifications.\<close>

definition many_state :: state where
  "many_state = \<lparr>notifications = map (\<lambda>i. plain_note i 1 False) [0..<45],
     trips = [], users = three_users, nextId = 45, emitted = [], outbox = [], log = []\<rparr>"

text \<open>One unread notification of recipient 1, not mailed.\<close>

definition one_note_state :: state where
  "one_note_state = \<lparr>notifications = [plain_note 0 1 False],
     trips = [], users = three_users, nextId = 1, emitted = [], outbox = [], log = []\<rparr>"

definition user1 :: AuthPayload where
  "user1 = \<lparr>auth_userId = 1, auth_role = traveler\<rparr>"

subsection \<open>Ownership, the store invariant and monotonic flags\<close>

text \<open>The notifications of one recipient, which is all a request of that recipient may
  depend on.\<close>

definition own :: "oid \<Rightarrow> state \<Rightarrow> NotificationDocument list" where
  "own u s = filter (\<lambda>n. userId n = u) (notifications s)"

text \<open>A requested id is well formed and names a notification of the caller.\<close>

definition owned_id :: "AuthPayload \<Rightarrow> state \<Rightarrow> id_param \<Rightarrow> bool" where
  "owned_id auth s x =
     (case x of
        InvalidId str \<Rightarrow> False
      | ValidId i \<Rightarrow> \<exists>n \<in> set (notifications s). doc_id n = i \<and> userId n = auth_userId auth)"

text \<open>\<^verbatim>\<open>_id\<close> is the unique key of the collection, and fresh ids have not been used.\<close>

definition wf_store :: "state \<Rightarrow> bool" where
  "wf_store s =
     (distinct (map doc_id (notifications s)) \<and> (\<forall>n \<in> set (notifications s). doc_id n < nextId s))"

text \<open>From \<open>ns\<close> to \<open>ns'\<close> no flag of a notification goes back to false.\<close>

definition flags_monotone :: "NotificationDocument list \<Rightarrow> NotificationDocument list \<Rightarrow> bool" where
  "flags_monotone ns ns' =
     (\<forall>n \<in> set ns. \<forall>n' \<in> set ns'. doc_id n' = doc_id n \<longrightarrow>
        (read n \<longrightarrow> read n') \<and> (emailSent n \<longrightarrow> emailSent n'))"

definition evolves :: "state \<Rightarrow> state \<Rightarrow> bool" where
  "evolves s s' =
     (wf_store s' \<and> nextId s \<le> nextId s'
      \<and> flags_monotone (notifications s) (notifications s')
      \<and> (\<forall>n' \<in> set (notifications s'). doc_id n' < nextId s \<longrightarrow>
            doc_id n' \<in> doc_id ` set (notifications s)))"

text \<open>The operations of the pipeline on the store, and the state each leaves.\<close>

datatype operation =
    Create NotificationData
  | SendEmail NotificationDocument
  | MarkAsRead "oid list"
  | MarkRead AuthPayload "id_param list"
  | MarkAllRead AuthPayload
  | Delete AuthPayload id_param
  | TripJoin oid string oid
  | TripLeave oid string oid
  | TripDeleted oid string "oid list" string
  | TripUpdate oid string "oid list" string "string list"

fun run :: "env \<Rightarrow> operation \<Rightarrow> state \<Rightarrow> state" where
  "run env (Create d) s = snd (createNotification env d s)"
| "run env (SendEmail n) s = snd (sendEmailNotification env n s)"
| "run env (MarkAsRead ids) s = snd (markAsRead env ids s)"
| "run env (MarkRead auth ids) s = snd (mark_read_route env auth ids s)"
| "run env (MarkAllRead auth) s = snd (mark_all_read_route env auth s)"
| "run env (Delete auth i) s = snd (delete_notification_route env auth i s)"
| "run env (TripJoin tid nm u) s = snd (notifyTripJoin env tid nm u s)"
| "run env (TripLeave tid nm u) s = snd (notifyTripLeave env tid nm u s)"
| "run env (TripDeleted tid tt ps org) s = snd (notifyTripDeleted env tid tt ps org s)"
| "run env (TripUpdate tid tt ps org cs) s = snd (notifyTripUpdate env tid tt ps org cs s)"

subsection \<open>The responses to a failed request\<close>

definition mark_read_failed :: "error \<Rightarrow> response" where
  "mark_read_failed e = \<lparr>status = 500,
     body = [(''error'', JString ''Failed to mark notifications as read''),
             (''details'', JMessageOf e)]\<rparr>"

definition delete_failed :: "error \<Rightarrow> response" where
  "delete_failed e = \<lparr>status = 500,
     body = [(''error'', JString ''Failed to delete notification''), (''details'', JMessageOf e)]\<rparr>"

section \<open>Basic facts\<close>

lemma forget_fields [simp]:
  "userId (forgetEmail n) = userId n" "type (forgetEmail n) = type n"
  "data (forgetEmail n) = data n" "read (forgetEmail n) = read n" "doc_id (forgetEmail n) = doc_id n"
  "title (forgetEmail n) = title n" "message (forgetEmail n) = message n"
  by (simp_all add: forgetEmail_def)

lemma forget_new: "forgetEmail (newDocument i d) = newDocument i d"
  by (simp add: forgetEmail_def newDocument_def)

lemma markEmailSent_forget: "map forgetEmail (markEmailSent i ns) = map forgetEmail ns"
  by (induction ns) (simp_all add: markEmailSent_def forgetEmail_def)

lemma sendEmail_returns: "fst (sendEmailNotification env n s) = Inr ()"
  by (simp add: sendEmailNotification_def sendEmailNotification_body_def try_catch_def Let_def
           split: option.split)

lemma sendEmail_forget:
  "map forgetEmail (notifications (snd (sendEmailNotification env n s)))
     = map forgetEmail (notifications s)"
  by (simp add: sendEmailNotification_def sendEmailNotification_body_def try_catch_def
        console_error_def Let_def markEmailSent_forget split: option.split)

lemma sendEmail_frame:
  "nextId (snd (sendEmailNotification env n s)) = nextId s"
  "trips (snd (sendEmailNotification env n s)) = trips s"
  "users (snd (sendEmailNotification env n s)) = users s"
  by (simp_all add: sendEmailNotification_def sendEmailNotification_body_def try_catch_def
        console_error_def Let_def split: option.split)

lemma create_rejected:
  "\<not> accepted env d \<Longrightarrow>
   createNotification env d s
     = (Inl (Rejected (Notification_create d)), console_error ''Error creating notification:'' s)"
  by (simp add: accepted_def createNotification_def createNotification_body_def try_catch_def)

lemma try_catch_Inr [simp]: "try_catch (Inr x, s) h = (Inr x, s)"
  by (simp add: try_catch_def)

lemma try_catch_Inl [simp]: "try_catch (Inl e, s) h = h e s"
  by (simp add: try_catch_def)

lemma sendEmail_obtain:
  obtains s' where "sendEmailNotification env n s = (Inr (), s')"
  using sendEmail_returns [of env n s] by (metis prod.collapse)

lemma create_accepted_body:
  assumes "accepted env d"
  shows "\<exists>s'. createNotification_body env d s = (Inr (newDocument (nextId s) d), s')
          \<and> map forgetEmail (notifications s')
               = map forgetEmail (notifications s) @ [newDocument (nextId s) d]
          \<and> nextId s' = Suc (nextId s) \<and> trips s' = trips s \<and> users s' = users s"
proof -
  let ?n = "newDocument (nextId s) d"
  let ?s1 = "s\<lparr>notifications := notifications s @ [?n], nextId := Suc (nextId s)\<rparr>"
  let ?s2 = "if socketIO env then ?s1\<lparr>emitted := emitted ?s1 @ [(nd_userId d, ?n)]\<rparr> else ?s1"
  have s2: "map forgetEmail (notifications ?s2) = map forgetEmail (notifications s) @ [?n]"
    "nextId ?s2 = Suc (nextId s)" "trips ?s2 = trips s" "users ?s2 = users s"
    by (simp_all add: forget_new)
  show ?thesis
  proof (cases "nd_sendEmail d = Some True \<and> emailTransporter env")
    case True
    obtain s3 where s3: "sendEmailNotification env ?n ?s2 = (Inr (), s3)"
      by (rule sendEmail_obtain)
    have "createNotification_body env d s = (Inr ?n, s3)"
      using assms True s3 by (simp add: accepted_def createNotification_body_def Let_def)
    moreover have "map forgetEmail (notifications s3) = map forgetEmail (notifications ?s2)"
      using sendEmail_forget [of env ?n ?s2] s3 by simp
    moreover have "nextId s3 = nextId ?s2" "trips s3 = trips ?s2" "users s3 = users ?s2"
      using sendEmail_frame [of env ?n ?s2] s3 by simp_all
    ultimately show ?thesis using s2 by simp
  next
    case False
    then have "createNotification_body env d s = (Inr ?n, ?s2)"
      using assms by (auto simp add: accepted_def createNotification_body_def Let_def)
    then show ?thesis using s2 by simp
  qed
qed

lemma create_accepted:
  assumes "accepted env d"
  shows "\<exists>s'. createNotification env d s = (Inr (newDocument (nextId s) d), s')
          \<and> map forgetEmail (notifications s')
               = map forgetEmail (notifications s) @ [newDocument (nextId s) d]
          \<and> nextId s' = Suc (nextId s) \<and> trips s' = trips s \<and> users s' = users s"
  using create_accepted_body [OF assms, of s] by (auto simp add: createNotification_def)

lemma create_accepted_state:
  assumes "accepted env d"
  shows "snd (createNotification env d s) =
     (let n = newDocument (nextId s) d;
          s1 = s\<lparr>notifications := notifications s @ [n], nextId := Suc (nextId s)\<rparr>;
          s2 = (if socketIO env then s1\<lparr>emitted := emitted s1 @ [(nd_userId d, n)]\<rparr> else s1)
      in if nd_sendEmail d = Some True \<and> emailTransporter env
         then snd (sendEmailNotification env n s2) else s2)"
proof -
  let ?n = "newDocument (nextId s) d"
  let ?s1 = "s\<lparr>notifications := notifications s @ [?n], nextId := Suc (nextId s)\<rparr>"
  let ?s2 = "if socketIO env then ?s1\<lparr>emitted := emitted ?s1 @ [(nd_userId d, ?n)]\<rparr> else ?s1"
  obtain s3 where s3: "sendEmailNotification env ?n ?s2 = (Inr (), s3)"
    by (rule sendEmail_obtain)
  show ?thesis
    using assms s3
    by (simp add: accepted_def createNotification_def createNotification_body_def Let_def)
qed

lemma console_error_frame [simp]:
  "notifications (console_error l s) = notifications s"
  "nextId (console_error l s) = nextId s"
  "trips (console_error l s) = trips s"
  "users (console_error l s) = users s"
  "log (console_error l s) = log s @ [l]"
  by (simp_all add: console_error_def)

lemma upt_add_Suc: "[a ..< a + Suc n] = a # [Suc a ..< Suc a + n]"
  by (subst upt_rec) (simp del: upt_Suc)

lemma length_newDocuments [simp]: "length (newDocuments i ds) = length ds"
  by (induction ds arbitrary: i) simp_all

lemma newDocuments_userId: "map userId (newDocuments i ds) = map nd_userId ds"
  by (induction ds arbitrary: i) (simp_all add: newDocument_def)

lemma newDocuments_in:
  "n \<in> set (newDocuments i ds) \<Longrightarrow> \<exists>j d. d \<in> set ds \<and> n = newDocument j d \<and> i \<le> j \<and> j < i + length ds"
proof (induction ds arbitrary: i)
  case Nil
  then show ?case by simp
next
  case (Cons d ds)
  then show ?case by (fastforce dest: Cons.IH)
qed

lemma createAll_effect:
  "\<exists>rs s'. createAll env ds s = (rs, s')
     \<and> map forgetEmail (notifications s')
          = map forgetEmail (notifications s) @ newDocuments (nextId s) (filter (accepted env) ds)
     \<and> nextId s' = nextId s + length (filter (accepted env) ds)
     \<and> trips s' = trips s \<and> users s' = users s
     \<and> map isl rs = map (\<lambda>d. \<not> accepted env d) ds"
proof (induction ds arbitrary: s)
  case Nil
  then show ?case by simp
next
  case (Cons d ds)
  show ?case
  proof (cases "accepted env d")
    case True
    from create_accepted [OF True, of s] obtain s1 where
      c: "createNotification env d s = (Inr (newDocument (nextId s) d), s1)"
      and f: "map forgetEmail (notifications s1)
               = map forgetEmail (notifications s) @ [newDocument (nextId s) d]"
      and n: "nextId s1 = Suc (nextId s)" and t: "trips s1 = trips s" and u: "users s1 = users s"
      by blast
    from Cons.IH [of s1] obtain rs s2 where
      a: "createAll env ds s1 = (rs, s2)"
      and f2: "map forgetEmail (notifications s2)
          = map forgetEmail (notifications s1) @ newDocuments (nextId s1) (filter (accepted env) ds)"
      and n2: "nextId s2 = nextId s1 + length (filter (accepted env) ds)"
      and t2: "trips s2 = trips s1" and u2: "users s2 = users s1"
      and r2: "map isl rs = map (\<lambda>d. \<not> accepted env d) ds"
      by blast
    show ?thesis using True c a f f2 n n2 t t2 u u2 r2 by simp
  next
    case False
    have c: "createNotification env d s
          = (Inl (Rejected (Notification_create d)), console_error ''Error creating notification:'' s)"
      by (rule create_rejected [OF False])
    let ?s1 = "console_error ''Error creating notification:'' s"
    from Cons.IH [of ?s1] obtain rs s2 where
      a: "createAll env ds ?s1 = (rs, s2)"
      and f2: "map forgetEmail (notifications s2)
          = map forgetEmail (notifications ?s1) @ newDocuments (nextId ?s1) (filter (accepted env) ds)"
      and n2: "nextId s2 = nextId ?s1 + length (filter (accepted env) ds)"
      and t2: "trips s2 = trips ?s1" and u2: "users s2 = users ?s1"
      and r2: "map isl rs = map (\<lambda>d. \<not> accepted env d) ds"
      by blast
    show ?thesis using False c a f2 n2 t2 u2 r2 by simp
  qed
qed

lemma newDocuments_append:
  "newDocuments i (xs @ ys) = newDocuments i xs @ newDocuments (i + length xs) ys"
  by (induction xs arbitrary: i) simp_all

lemma filter_takeWhile_rest:
  "filter P xs = takeWhile P xs @ filter P (tl (dropWhile P xs))"
  by (induction xs) simp_all

lemma all_takeWhile: "(\<forall>x \<in> set xs. P x) \<Longrightarrow> takeWhile P xs = xs \<and> tl (dropWhile P xs) = []"
  by (induction xs) simp_all

lemma awaitAll_effect:
  "\<exists>r s'. awaitAll env ds s = (r, s', tl (dropWhile (accepted env) ds))
     \<and> map forgetEmail (notifications s')
          = map forgetEmail (notifications s) @ newDocuments (nextId s) (takeWhile (accepted env) ds)
     \<and> nextId s' = nextId s + length (takeWhile (accepted env) ds)
     \<and> trips s' = trips s \<and> users s' = users s
     \<and> (isl r \<longleftrightarrow> (\<exists>d \<in> set ds. \<not> accepted env d))"
proof (induction ds arbitrary: s)
  case Nil
  then show ?case by simp
next
  case (Cons d ds)
  show ?case
  proof (cases "accepted env d")
    case True
    from create_accepted [OF True, of s] obtain s1 where
      c: "createNotification env d s = (Inr (newDocument (nextId s) d), s1)"
      and f: "map forgetEmail (notifications s1)
               = map forgetEmail (notifications s) @ [newDocument (nextId s) d]"
      and n: "nextId s1 = Suc (nextId s)" and t: "trips s1 = trips s" and u: "users s1 = users s"
      by blast
    from Cons.IH [of s1] obtain r s2 where
      a: "awaitAll env ds s1 = (r, s2, tl (dropWhile (accepted env) ds))"
      and f2: "map forgetEmail (notifications s2)
          = map forgetEmail (notifications s1) @ newDocuments (nextId s1) (takeWhile (accepted env) ds)"
      and n2: "nextId s2 = nextId s1 + length (takeWhile (accepted env) ds)"
      and t2: "trips s2 = trips s1" and u2: "users s2 = users s1"
      and r2: "isl r \<longleftrightarrow> (\<exists>d \<in> set ds. \<not> accepted env d)"
      by blast
    show ?thesis using True c a f f2 n n2 t t2 u u2 r2 by (cases r) simp_all
  next
    case False
    have c: "createNotification env d s
          = (Inl (Rejected (Notification_create d)), console_error ''Error creating notification:'' s)"
      by (rule create_rejected [OF False])
    show ?thesis using False c by simp
  qed
qed

lemma fanOut_body_effect:
  "\<exists>r s'. fanOut_body env ds s = (r, s')
     \<and> map forgetEmail (notifications s')
          = map forgetEmail (notifications s) @ newDocuments (nextId s) (takeWhile (accepted env) ds)
     \<and> nextId s' = nextId s + length (takeWhile (accepted env) ds)
     \<and> trips s' = trips s \<and> users s' = users s
     \<and> (isl r \<longleftrightarrow> (\<exists>d \<in> set ds. \<not> accepted env d))"
proof -
  from awaitAll_effect [of env ds s] obtain r s1 where
    a: "awaitAll env ds s = (r, s1, tl (dropWhile (accepted env) ds))"
    and rest: "map forgetEmail (notifications s1)
          = map forgetEmail (notifications s) @ newDocuments (nextId s) (takeWhile (accepted env) ds)"
      "nextId s1 = nextId s + length (takeWhile (accepted env) ds)"
      "trips s1 = trips s" "users s1 = users s"
    and r: "isl r \<longleftrightarrow> (\<exists>d \<in> set ds. \<not> accepted env d)"
    by blast
  show ?thesis using rest r by (cases r) (simp_all add: fanOut_body_def a)
qed

lemma in_flight_eq: "in_flight env ds s = tl (dropWhile (accepted env) ds)"
  using awaitAll_effect [of env ds s] by (auto simp add: in_flight_def)

text \<open>What the service writes with \<^verbatim>\<open>console.error\<close>.\<close>

lemma sendEmail_log:
  "log (snd (sendEmailNotification env n s))
     = log s @ (if email_fails env (users s) n then [''Error sending email notification:''] else [])"
  by (simp add: sendEmailNotification_def sendEmailNotification_body_def email_fails_def
        console_error_def Let_def split: option.split)

lemma create_accepted_log:
  assumes "accepted env d"
  shows "log (snd (createNotification env d s))
     = log s @ (if nd_sendEmail d = Some True \<and> emailTransporter env
                   \<and> email_fails env (users s) (newDocument (nextId s) d)
                then [''Error sending email notification:''] else [])"
  by (simp add: create_accepted_state [OF assms] Let_def sendEmail_log)

lemma create_log:
  "\<exists>ls. log (snd (createNotification env d s)) = log s @ ls
     \<and> set ls \<subseteq> {''Error sending email notification:'', ''Error creating notification:''}
     \<and> (''Error creating notification:'' \<in> set ls \<longleftrightarrow> \<not> accepted env d)"
proof (cases "accepted env d")
  case True
  then show ?thesis by (auto simp add: create_accepted_log)
next
  case False
  then show ?thesis by (simp add: create_rejected)
qed

lemma awaitAll_log:
  "\<exists>ls. log (fst (snd (awaitAll env ds s))) = log s @ ls
     \<and> set ls \<subseteq> {''Error sending email notification:'', ''Error creating notification:''}
     \<and> (''Error creating notification:'' \<in> set ls \<longleftrightarrow> (\<exists>d \<in> set ds. \<not> accepted env d))"
proof (induction ds arbitrary: s)
  case Nil
  then show ?case by simp
next
  case (Cons d ds)
  show ?case
  proof (cases "accepted env d")
    case False
    then show ?thesis by (simp add: create_rejected)
  next
    case True
    from create_accepted [OF True, of s] obtain s1 where
      c: "createNotification env d s = (Inr (newDocument (nextId s) d), s1)" by blast
    from create_log [of env d s] c True obtain ls1 where
      l1: "log s1 = log s @ ls1"
        "set ls1 \<subseteq> {''Error sending email notification:'', ''Error creating notification:''}"
        "''Error creating notification:'' \<notin> set ls1"
      by auto
    from Cons.IH [of s1] obtain ls2 where
      l2: "log (fst (snd (awaitAll env ds s1))) = log s1 @ ls2"
        "set ls2 \<subseteq> {''Error sending email notification:'', ''Error creating notification:''}"
        "''Error creating notification:'' \<in> set ls2 \<longleftrightarrow> (\<exists>d \<in> set ds. \<not> accepted env d)"
      by blast
    have "fst (snd (awaitAll env (d # ds) s)) = fst (snd (awaitAll env ds s1))"
      by (simp add: c split: prod.split sum.split)
    then have "log (fst (snd (awaitAll env (d # ds) s))) = log s @ (ls1 @ ls2)"
      by (simp add: l1(1) l2(1))
    moreover have "set (ls1 @ ls2)
        \<subseteq> {''Error sending email notification:'', ''Error creating notification:''}"
      using l1(2) l2(2) by simp
    moreover have "''Error creating notification:'' \<in> set (ls1 @ ls2)
        \<longleftrightarrow> (\<exists>d \<in> set (d # ds). \<not> accepted env d)"
      using l1(3) l2(3) True by simp
    ultimately show ?thesis by blast
  qed
qed

lemma caught_fanOut_log:
  "\<exists>ls. set ls \<subseteq> {''Error sending email notification:'', ''Error creating notification:''}
     \<and> (''Error creating notification:'' \<in> set ls \<longleftrightarrow> (\<exists>d \<in> set ds. \<not> accepted env d))
     \<and> log (snd (try_catch (fanOut_body env ds s) (\<lambda>e s'. (Inr (), console_error l s'))))
         = log s @ ls @ (if \<exists>d \<in> set ds. \<not> accepted env d then [l] else [])"
proof -
  from awaitAll_log [of env ds s] obtain ls where
    l: "log (fst (snd (awaitAll env ds s))) = log s @ ls"
      "set ls \<subseteq> {''Error sending email notification:'', ''Error creating notification:''}"
      "''Error creating notification:'' \<in> set ls \<longleftrightarrow> (\<exists>d \<in> set ds. \<not> accepted env d)"
    by blast
  from awaitAll_effect [of env ds s] obtain r s1 where
    a: "awaitAll env ds s = (r, s1, tl (dropWhile (accepted env) ds))"
    and r: "isl r \<longleftrightarrow> (\<exists>d \<in> set ds. \<not> accepted env d)"
    by blast
  have "log (snd (try_catch (fanOut_body env ds s) (\<lambda>e s'. (Inr (), console_error l s'))))
      = log s @ ls @ (if \<exists>d \<in> set ds. \<not> accepted env d then [l] else [])"
    using l(1) r by (cases r) (simp_all add: fanOut_body_def a)
  with l(2,3) show ?thesis by blast
qed

lemma fanOut_log_rejected:
  assumes "\<exists>d \<in> set ds. \<not> accepted env d"
  shows "last (log (snd (try_catch (fanOut_body env ds s) (\<lambda>e s'. (Inr (), console_error l s'))))) = l"
    and "''Error creating notification:''
           \<in> set (drop (length (log s))
               (log (snd (try_catch (fanOut_body env ds s) (\<lambda>e s'. (Inr (), console_error l s'))))))"
  using caught_fanOut_log [of ds env s l] assms by auto


text \<open>The cases of the two builders that look the trip up.\<close>

lemma notifyTrip_caught_cases:
  fixes build env tid s l
  defines "R \<equiv> try_catch (notifyTrip_body build env tid s) (\<lambda>e s'. (Inr (), console_error l s'))"
  shows "throws env (Trip_findById Service tid) \<Longrightarrow> snd R = console_error l s"
    and "\<not> throws env (Trip_findById Service tid) \<Longrightarrow>
         find (\<lambda>t. trip_id t = tid) (trips s) = Some trip \<Longrightarrow>
         find (\<lambda>u. user_id u = organizerId trip) (users s) = None \<Longrightarrow>
         snd R = console_error l s"
    and "\<not> throws env (Trip_findById Service tid) \<Longrightarrow>
         find (\<lambda>t. trip_id t = tid) (trips s) = Some trip \<Longrightarrow>
         find (\<lambda>u. user_id u = organizerId trip) (users s) = Some org \<Longrightarrow>
         \<not> accepted env (build trip org) \<Longrightarrow>
         snd R = console_error l (console_error ''Error creating notification:'' s)"
    and "\<not> throws env (Trip_findById Service tid) \<Longrightarrow>
         find (\<lambda>t. trip_id t = tid) (trips s) = Some trip \<Longrightarrow>
         find (\<lambda>u. user_id u = organizerId trip) (users s) = Some org \<Longrightarrow>
         accepted env (build trip org) \<Longrightarrow>
         snd R = snd (createNotification env (build trip org) s)"
proof -
  show "throws env (Trip_findById Service tid) \<Longrightarrow> snd R = console_error l s"
    by (simp add: R_def notifyTrip_body_def)
  show "\<not> throws env (Trip_findById Service tid) \<Longrightarrow>
         find (\<lambda>t. trip_id t = tid) (trips s) = Some trip \<Longrightarrow>
         find (\<lambda>u. user_id u = organizerId trip) (users s) = None \<Longrightarrow>
         snd R = console_error l s"
    by (simp add: R_def notifyTrip_body_def)
  show "\<not> throws env (Trip_findById Service tid) \<Longrightarrow>
         find (\<lambda>t. trip_id t = tid) (trips s) = Some trip \<Longrightarrow>
         find (\<lambda>u. user_id u = organizerId trip) (users s) = Some org \<Longrightarrow>
         \<not> accepted env (build trip org) \<Longrightarrow>
         snd R = console_error l (console_error ''Error creating notification:'' s)"
    by (simp add: R_def notifyTrip_body_def create_rejected)
  show "snd R = snd (createNotification env (build trip org) s)"
    if "\<not> throws env (Trip_findById Service tid)"
      "find (\<lambda>t. trip_id t = tid) (trips s) = Some trip"
      "find (\<lambda>u. user_id u = organizerId trip) (users s) = Some org"
      "accepted env (build trip org)"
  proof -
    from create_accepted [OF that(4), of s] obtain s1 where
      "createNotification env (build trip org) s = (Inr (newDocument (nextId s) (build trip org)), s1)"
      by blast
    with that(1-3) show ?thesis by (simp add: R_def notifyTrip_body_def)
  qed
qed

lemma trip_data_sendEmail [simp]:
  "nd_sendEmail (tripJoinData trip org nm u) = Some True"
  "nd_sendEmail (tripLeaveData trip org nm u) = Some True"
  by (simp_all add: tripJoinData_def tripLeaveData_def)

lemma outcome_case_Inr:
  "fst X = Inr x \<Longrightarrow> (case X of (Inl e, s1) \<Rightarrow> A e s1 | (Inr u, s1) \<Rightarrow> B u s1) = B x (snd X)"
  by (cases X) auto

lemma caught_fanOut_effect:
  "\<exists>s'. try_catch (fanOut_body env ds s) (\<lambda>e s'. (Inr (), console_error l s')) = (Inr (), s')
     \<and> map forgetEmail (notifications s')
          = map forgetEmail (notifications s) @ newDocuments (nextId s) (takeWhile (accepted env) ds)
     \<and> nextId s' = nextId s + length (takeWhile (accepted env) ds)
     \<and> trips s' = trips s \<and> users s' = users s"
proof -
  from fanOut_body_effect [of env ds s] obtain r s1 where
    b: "fanOut_body env ds s = (r, s1)"
    and rest: "map forgetEmail (notifications s1)
          = map forgetEmail (notifications s) @ newDocuments (nextId s) (takeWhile (accepted env) ds)"
      "nextId s1 = nextId s + length (takeWhile (accepted env) ds)"
      "trips s1 = trips s" "users s1 = users s"
    by blast
  show ?thesis using rest by (cases r) (simp_all add: b)
qed

text \<open>Once the creates in flight have settled, every accepted notification is stored.\<close>

lemma caught_fanOut_settled:
  "map forgetEmail (notifications (settle env (in_flight env ds s)
      (snd (try_catch (fanOut_body env ds s) (\<lambda>e s'. (Inr (), console_error l s'))))))
     = map forgetEmail (notifications s) @ newDocuments (nextId s) (filter (accepted env) ds)"
proof -
  let ?ret = "snd (try_catch (fanOut_body env ds s) (\<lambda>e s'. (Inr (), console_error l s')))"
  let ?rest = "tl (dropWhile (accepted env) ds)"
  from caught_fanOut_effect [of env ds s l]
  have f: "map forgetEmail (notifications ?ret)
          = map forgetEmail (notifications s) @ newDocuments (nextId s) (takeWhile (accepted env) ds)"
    and n: "nextId ?ret = nextId s + length (takeWhile (accepted env) ds)"
    by auto
  from createAll_effect [of env ?rest ?ret]
  have "map forgetEmail (notifications (settle env ?rest ?ret))
      = map forgetEmail (notifications ?ret) @ newDocuments (nextId ?ret) (filter (accepted env) ?rest)"
    by (auto simp add: settle_def)
  also have "\<dots> = map forgetEmail (notifications s)
      @ newDocuments (nextId s) (takeWhile (accepted env) ds @ filter (accepted env) ?rest)"
    by (simp add: f n newDocuments_append)
  also have "\<dots> = map forgetEmail (notifications s)
      @ newDocuments (nextId s) (filter (accepted env) ds)"
    by (simp add: filter_takeWhile_rest [symmetric])
  finally show ?thesis by (simp add: in_flight_eq)
qed

lemma notifyTrip_body_absent:
  "find (\<lambda>t. trip_id t = tid) (trips s) = None \<Longrightarrow>
   notifyTrip_body build env tid s =
     (if throws env (Trip_findById Service tid)
      then (Inl (Rejected (Trip_findById Service tid)), s) else (Inr (), s))"
  by (simp add: notifyTrip_body_def)

lemma caught_returns:
  "fst (try_catch X (\<lambda>e s'. (Inr (), console_error l s'))) = Inr ()"
  by (cases X) (auto simp: try_catch_def split: sum.split)

lemma notifyTripJoin_returns: "fst (notifyTripJoin env tid nm uid s) = Inr ()"
  unfolding notifyTripJoin_def by (rule caught_returns)

lemma notifyTripLeave_returns: "fst (notifyTripLeave env tid nm uid s) = Inr ()"
  unfolding notifyTripLeave_def by (rule caught_returns)

lemma notifyTripDeleted_returns: "fst (notifyTripDeleted env tid tt ps org s) = Inr ()"
  unfolding notifyTripDeleted_def by (rule caught_returns)

lemma notifyTripUpdate_returns: "fst (notifyTripUpdate env tid tt ps org cs s) = Inr ()"
  unfolding notifyTripUpdate_def by (rule caught_returns)

lemma findTrip_cong:
  "same_route_calls env env' \<Longrightarrow> findTrip env p s = findTrip env' p s"
  by (simp add: findTrip_def same_route_calls_def split: id_param.split)

lemma trip_join_route_response:
  assumes "same_route_calls env env'"
  shows "fst (trip_join_route env auth p s) = fst (trip_join_route env' auth p s)"
proof -
  have "fst (trip_join_body env auth p s) = fst (trip_join_body env' auth p s)"
    using assms
    by (simp add: trip_join_body_def findTrip_cong [OF assms] Let_def
          outcome_case_Inr [OF notifyTripJoin_returns] same_route_calls_def
          split: sum.split option.split)
  moreover have "fst (trip_join_route e auth p s)
      = (case fst (trip_join_body e auth p s) of
           Inl x \<Rightarrow> \<lparr>status = 500, body = [(''error'', JString ''Server error'')]\<rparr>
         | Inr r \<Rightarrow> r)" for e
    by (cases "trip_join_body e auth p s") (simp add: trip_join_route_def split: sum.split)
  ultimately show ?thesis by simp
qed

lemma trip_leave_route_response:
  assumes "same_route_calls env env'"
  shows "fst (trip_leave_route env auth p s) = fst (trip_leave_route env' auth p s)"
proof -
  have "fst (trip_leave_body env auth p s) = fst (trip_leave_body env' auth p s)"
    using assms
    by (simp add: trip_leave_body_def findTrip_cong [OF assms] Let_def
          outcome_case_Inr [OF notifyTripLeave_returns] same_route_calls_def
          split: sum.split option.split)
  moreover have "fst (trip_leave_route e auth p s)
      = (case fst (trip_leave_body e auth p s) of
           Inl x \<Rightarrow> \<lparr>status = 500, body = [(''error'', JString ''Server error'')]\<rparr>
         | Inr r \<Rightarrow> r)" for e
    by (cases "trip_leave_body e auth p s") (simp add: trip_leave_route_def split: sum.split)
  ultimately show ?thesis by simp
qed

lemma guarded_notifyTripDeleted_returns:
  "fst (if 0 < length ps then notifyTripDeleted env tid tt ps org s else (Inr (), s)) = Inr ()"
  by (simp add: notifyTripDeleted_returns)

lemma trip_delete_route_response:
  assumes "same_route_calls env env'"
  shows "fst (trip_delete_route env auth p s) = fst (trip_delete_route env' auth p s)"
proof -
  have "fst (trip_delete_body env auth p s) = fst (trip_delete_body env' auth p s)"
    using assms
    by (simp add: trip_delete_body_def findTrip_cong [OF assms] Let_def
          outcome_case_Inr [OF guarded_notifyTripDeleted_returns]
          outcome_case_Inr [OF notifyTripDeleted_returns] same_route_calls_def
          split: sum.split option.split)
  moreover have "fst (trip_delete_route e auth p s)
      = (if \<not> requireRole [organizer, admin] auth
         then \<lparr>status = 403, body = [(''error'', JString ''Forbidden'')]\<rparr>
         else case fst (trip_delete_body e auth p s) of
           Inl x \<Rightarrow> \<lparr>status = 500, body = [(''error'', JString ''Failed to delete trip'')]\<rparr>
         | Inr r \<Rightarrow> r)" for e
    by (cases "trip_delete_body e auth p s") (simp add: trip_delete_route_def split: sum.split)
  ultimately show ?thesis by simp
qed

lemma notifyTrip_absent_notifications:
  assumes "find (\<lambda>t. trip_id t = tid) (trips s) = None"
  shows "notifications (snd (try_catch (notifyTrip_body build env tid s)
            (\<lambda>e s'. (Inr (), console_error l s')))) = notifications s"
    and "\<not> throws env (Trip_findById Service tid) \<Longrightarrow>
         try_catch (notifyTrip_body build env tid s) (\<lambda>e s'. (Inr (), console_error l s'))
           = (Inr (), s)"
  by (simp_all add: notifyTrip_body_absent [OF assms])

lemma drop_forget:
  assumes "map forgetEmail ns' = map forgetEmail ns @ new"
  shows "map forgetEmail (drop (length ns) ns') = new"
proof -
  have "map forgetEmail (drop (length ns) ns') = drop (length ns) (map forgetEmail ns')"
    by (simp add: drop_map)
  then show ?thesis by (simp add: assms)
qed

lemma recipients_of_forget:
  assumes "map forgetEmail ns = ms"
  shows "map userId ns = map userId ms"
proof -
  have "map userId ns = map userId (map forgetEmail ns)" by simp
  then show ?thesis by (simp only: assms)
qed

lemma fanOut_recipients:
  assumes "map forgetEmail ns' = map forgetEmail ns @ newDocuments i (filter (accepted env) (map mk ps))"
    and "\<And>p. nd_userId (mk p) = p"
  shows "map userId (drop (length ns) ns') = filter (\<lambda>p. accepted env (mk p)) ps"
proof -
  have "map userId (drop (length ns) ns') = map userId (map forgetEmail (drop (length ns) ns'))"
    by simp
  also have "\<dots> = map nd_userId (filter (accepted env) (map mk ps))"
    by (simp only: drop_forget [OF assms(1)] newDocuments_userId)
  also have "\<dots> = filter (\<lambda>p. accepted env (mk p)) ps"
    by (simp add: filter_map comp_def assms(2))
  finally show ?thesis .
qed

lemma fanOut_created:
  assumes "map forgetEmail ns' = map forgetEmail ns @ newDocuments i (filter (accepted env) (map mk ps))"
    and "n \<in> set (drop (length ns) ns')"
  shows "\<exists>j p. forgetEmail n = newDocument j (mk p)"
proof -
  from assms(2) have "forgetEmail n \<in> set (map forgetEmail (drop (length ns) ns'))" by simp
  then have "forgetEmail n \<in> set (newDocuments i (filter (accepted env) (map mk ps)))"
    by (simp only: drop_forget [OF assms(1)])
  from newDocuments_in [OF this] show ?thesis by auto
qed

lemma fanOut_data_userId [simp]:
  "nd_userId (tripDeletedData tid tt org p) = p"
  "nd_userId (tripUpdateData tid tt org cs p) = p"
  by (simp_all add: tripDeletedData_def tripUpdateData_def)

text \<open>When a fan-out builder returns, the notifications before the first rejected insert
  are stored.\<close>

lemma notifyTripDeleted_effect:
  "\<exists>s'. notifyTripDeleted env tid tt ps org s = (Inr (), s')
     \<and> map forgetEmail (notifications s') = map forgetEmail (notifications s)
          @ newDocuments (nextId s) (takeWhile (accepted env) (map (tripDeletedData tid tt org) ps))"
  unfolding notifyTripDeleted_def
  using caught_fanOut_effect [of env "map (tripDeletedData tid tt org) ps" s] by blast

lemma notifyTripUpdate_effect:
  "\<exists>s'. notifyTripUpdate env tid tt ps org cs s = (Inr (), s')
     \<and> map forgetEmail (notifications s') = map forgetEmail (notifications s)
          @ newDocuments (nextId s) (takeWhile (accepted env) (map (tripUpdateData tid tt org cs) ps))"
  unfolding notifyTripUpdate_def
  using caught_fanOut_effect [of env "map (tripUpdateData tid tt org cs) ps" s] by blast

lemma notifyTripDeleted_all_accepted:
  assumes "\<forall>p \<in> set ps. accepted env (tripDeletedData tid tt org p)"
  shows "map forgetEmail (notifications (snd (notifyTripDeleted env tid tt ps org s)))
     = map forgetEmail (notifications s)
         @ newDocuments (nextId s) (filter (accepted env) (map (tripDeletedData tid tt org) ps))"
proof -
  from assms have a: "\<forall>d \<in> set (map (tripDeletedData tid tt org) ps). accepted env d" by simp
  have "filter (accepted env) (map (tripDeletedData tid tt org) ps)
      = map (tripDeletedData tid tt org) ps"
    using a by (simp only: filter_True)
  with all_takeWhile [OF a]
  have tw: "takeWhile (accepted env) (map (tripDeletedData tid tt org) ps)
      = filter (accepted env) (map (tripDeletedData tid tt org) ps)"
    by (simp only:)
  from notifyTripDeleted_effect [of env tid tt ps org s] obtain s' where
    e: "notifyTripDeleted env tid tt ps org s = (Inr (), s')"
    and f: "map forgetEmail (notifications s') = map forgetEmail (notifications s)
          @ newDocuments (nextId s) (takeWhile (accepted env) (map (tripDeletedData tid tt org) ps))"
    by blast
  show ?thesis by (simp only: e snd_conv f tw)
qed

lemma tripDeleted_settled_effect:
  "map forgetEmail (notifications (tripDeleted_settled env tid tt ps org s))
     = map forgetEmail (notifications s)
         @ newDocuments (nextId s) (filter (accepted env) (map (tripDeletedData tid tt org) ps))"
  unfolding tripDeleted_settled_def notifyTripDeleted_def by (rule caught_fanOut_settled)

lemma tripUpdate_settled_effect:
  "map forgetEmail (notifications (tripUpdate_settled env tid tt ps org cs s))
     = map forgetEmail (notifications s)
         @ newDocuments (nextId s) (filter (accepted env) (map (tripUpdateData tid tt org cs) ps))"
  unfolding tripUpdate_settled_def notifyTripUpdate_def by (rule caught_fanOut_settled)

section \<open>Trip deletion fan-out\<close>

text \<open>The delete route of the trips hands the deleted trip's id, title and participants
  to the fan-out, after the trip is gone from the collection.\<close>

lemma trip_delete_route_fans_out:
  assumes "requireRole [organizer, admin] auth"
    and "findTrip env tripParam s = Inr (Some trip)"
    and "find (\<lambda>u. user_id u = organizerId trip) (users s) = Some org"
    and "user_id org = auth_userId auth \<or> auth_role auth = admin"
    and "\<not> throws env (Trip_findByIdAndDelete (trip_id trip))"
    and "participants trip \<noteq> []"
  shows "trip_delete_route env auth tripParam s =
     (\<lparr>status = 200,
       body = [(''message'', JString ''Trip deleted successfully''),
               (''notifiedParticipants'', JNumber (length (participants trip)))]\<rparr>,
      snd (notifyTripDeleted env (trip_id trip) (trip_title trip) (participants trip)
             (if name org = [] then ''Organizer'' else name org)
             (s\<lparr>trips := filter (\<lambda>t. trip_id t \<noteq> trip_id trip) (trips s)\<rparr>)))"
proof -
  have "trip_delete_body env auth tripParam s =
     (Inr \<lparr>status = 200,
            body = [(''message'', JString ''Trip deleted successfully''),
                    (''notifiedParticipants'', JNumber (length (participants trip)))]\<rparr>,
      snd (notifyTripDeleted env (trip_id trip) (trip_title trip) (participants trip)
             (if name org = [] then ''Organizer'' else name org)
             (s\<lparr>trips := filter (\<lambda>t. trip_id t \<noteq> trip_id trip) (trips s)\<rparr>)))"
    using assms(2-6)
    by (auto simp add: trip_delete_body_def Let_def outcome_case_Inr [OF notifyTripDeleted_returns])
  then show ?thesis using assms(1) by (simp add: trip_delete_route_def)
qed

text \<open>
  Claim C1. When the database accepts the inserts, \<^verbatim>\<open>notifyTripDeleted\<close> on a participant
  list of size P adds exactly P notification documents, one per participant in list
  order, each of kind \<^verbatim>\<open>trip_delete\<close> and each carrying the trip id and trip title it was
  called with. This holds in every environment, so whatever the mail transport does for
  any participant.
\<close>

theorem notifyTripDeleted_one_per_participant:
  assumes "\<forall>p \<in> set participantIds. accepted env (tripDeletedData tid ttitle organizerName p)"
  shows "length (notifications (snd (notifyTripDeleted env tid ttitle participantIds organizerName s)))
           = length (notifications s) + length participantIds
       \<and> map userId (drop (length (notifications s))
            (notifications (snd (notifyTripDeleted env tid ttitle participantIds organizerName s))))
           = participantIds
       \<and> (\<forall>n \<in> set (drop (length (notifications s))
            (notifications (snd (notifyTripDeleted env tid ttitle participantIds organizerName s)))).
            type n = trip_delete \<and> tripId (data n) = Some tid \<and> tripTitle (data n) = Some ttitle)"
proof -
  let ?mk = "tripDeletedData tid ttitle organizerName"
  let ?ns' = "notifications (snd (notifyTripDeleted env tid ttitle participantIds organizerName s))"
  have f: "map forgetEmail ?ns' = map forgetEmail (notifications s)
             @ newDocuments (nextId s) (filter (accepted env) (map ?mk participantIds))"
    by (rule notifyTripDeleted_all_accepted [OF assms])
  have all: "filter (\<lambda>p. accepted env (?mk p)) participantIds = participantIds"
    using assms by simp
  have "length (map forgetEmail ?ns') = length (notifications s) + length participantIds"
    unfolding f by (simp add: filter_map comp_def all)
  then have len: "length ?ns' = length (notifications s) + length participantIds" by simp
  have rec: "map userId (drop (length (notifications s)) ?ns') = participantIds"
    using fanOut_recipients [OF f] by (simp add: all)
  have kind: "type n = trip_delete \<and> tripId (data n) = Some tid \<and> tripTitle (data n) = Some ttitle"
    if "n \<in> set (drop (length (notifications s)) ?ns')" for n
  proof -
    from fanOut_created [OF f that] obtain j p where "forgetEmail n = newDocument j (?mk p)"
      by blast
    then have "type (forgetEmail n) = trip_delete \<and> tripId (data (forgetEmail n)) = Some tid
             \<and> tripTitle (data (forgetEmail n)) = Some ttitle"
      by (simp add: newDocument_def tripDeletedData_def)
    then show ?thesis by simp
  qed
  from len rec kind show ?thesis by blast
qed

theorem notifyTripDeleted_one_per_participant_witness:
  "accepted mail_fails_env (tripDeletedData 7 ''Alps'' ''O'' 1)
   \<and> accepted mail_fails_env (tripDeletedData 7 ''Alps'' ''O'' 2)
   \<and> accepted mail_fails_env (tripDeletedData 7 ''Alps'' ''O'' 3)
   \<and> throws mail_fails_env (sendMail (newDocument 11 (tripDeletedData 7 ''Alps'' ''O'' 2)))
   \<and> map userId (notifications
        (snd (notifyTripDeleted mail_fails_env 7 ''Alps'' [1, 2, 3] ''O'' empty_state))) = [1, 2, 3]
   \<and> map type (notifications
        (snd (notifyTripDeleted mail_fails_env 7 ''Alps'' [1, 2, 3] ''O'' empty_state)))
       = [trip_delete, trip_delete, trip_delete]
   \<and> map (\<lambda>n. tripId (data n)) (notifications
        (snd (notifyTripDeleted mail_fails_env 7 ''Alps'' [1, 2, 3] ''O'' empty_state)))
       = [Some 7, Some 7, Some 7]
   \<and> map (\<lambda>n. tripTitle (data n)) (notifications
        (snd (notifyTripDeleted mail_fails_env 7 ''Alps'' [1, 2, 3] ''O'' empty_state)))
       = [Some ''Alps'', Some ''Alps'', Some ''Alps'']"
proof -
  let ?ns = "notifications
    (snd (notifyTripDeleted mail_fails_env 7 ''Alps'' [1, 2, 3] ''O'' empty_state))"
  have a: "accepted mail_fails_env (tripDeletedData 7 ''Alps'' ''O'' p)" for p
    by (simp add: accepted_def mail_fails_env_def)
  then have h: "\<forall>p \<in> set [1, 2, 3]. accepted mail_fails_env (tripDeletedData 7 ''Alps'' ''O'' p)"
    by simp
  have m: "throws mail_fails_env (sendMail (newDocument 11 (tripDeletedData 7 ''Alps'' ''O'' 2)))"
    by (simp add: mail_fails_env_def newDocument_def tripDeletedData_def)
  have e: "notifications empty_state = []" by (simp add: empty_state_def)
  from notifyTripDeleted_one_per_participant [OF h, of empty_state]
  have len: "length ?ns = 3" and rec: "map userId ?ns = [1, 2, 3]"
    and kind: "\<forall>n \<in> set ?ns.
      type n = trip_delete \<and> tripId (data n) = Some 7 \<and> tripTitle (data n) = Some ''Alps''"
    by (simp_all add: e)
  from len obtain x y z where xyz: "?ns = [x, y, z]"
    by (auto simp add: length_Suc_conv numeral_3_eq_3)
  from kind have "map type ?ns = [trip_delete, trip_delete, trip_delete]"
    and "map (\<lambda>n. tripId (data n)) ?ns = [Some 7, Some 7, Some 7]"
    and "map (\<lambda>n. tripTitle (data n)) ?ns = [Some ''Alps'', Some ''Alps'', Some ''Alps'']"
    unfolding xyz by simp_all
  with a m rec show ?thesis by blast
qed

section \<open>Email failures in createNotification\<close>

text \<open>
  Claim C3. When the database accepts the insert, \<^verbatim>\<open>createNotification\<close> returns the
  inserted document, unread and with \<^verbatim>\<open>emailSent\<close> false, in every environment: no
  failure of the user lookup, of the mail transport or of the flag update makes the call
  fail. The document stays in the collection (up to its \<^verbatim>\<open>emailSent\<close> flag), and when no
  mail transport is configured it is stored exactly as returned.
\<close>

theorem createNotification_tolerates_email_failure:
  assumes "accepted env d"
  shows "fst (createNotification env d s) = Inr (newDocument (nextId s) d)
       \<and> \<not> read (newDocument (nextId s) d) \<and> \<not> emailSent (newDocument (nextId s) d)
       \<and> (\<exists>m \<in> set (notifications (snd (createNotification env d s))).
             forgetEmail m = newDocument (nextId s) d)
       \<and> (\<not> emailTransporter env \<longrightarrow>
             newDocument (nextId s) d \<in> set (notifications (snd (createNotification env d s))))"
proof -
  let ?n = "newDocument (nextId s) d"
  from create_accepted [OF assms, of s] obtain s' where
    c: "createNotification env d s = (Inr ?n, s')"
    and f: "map forgetEmail (notifications s') = map forgetEmail (notifications s) @ [?n]"
    by blast
  have "?n \<in> set (map forgetEmail (notifications s'))" by (simp only: f) simp
  then have stored: "\<exists>m \<in> set (notifications s'). forgetEmail m = ?n" by auto
  have off: "?n \<in> set (notifications s')" if "\<not> emailTransporter env"
  proof -
    have "createNotification_body env d s
        = (Inr ?n, (if socketIO env
             then s\<lparr>notifications := notifications s @ [?n], nextId := Suc (nextId s),
                    emitted := emitted s @ [(nd_userId d, ?n)]\<rparr>
             else s\<lparr>notifications := notifications s @ [?n], nextId := Suc (nextId s)\<rparr>))"
      using that assms by (simp add: accepted_def createNotification_body_def Let_def)
    then show ?thesis using c by (auto simp add: createNotification_def split: if_splits)
  qed
  show ?thesis using c stored off by (simp add: newDocument_def)
qed

theorem createNotification_tolerates_email_failure_witness:
  "accepted no_transport_env welcome_note
   \<and> nd_sendEmail welcome_note = Some True \<and> \<not> emailTransporter no_transport_env
   \<and> fst (createNotification no_transport_env welcome_note empty_state) = Inr (newDocument 10 welcome_note)
   \<and> \<not> emailSent (newDocument 10 welcome_note)
   \<and> newDocument 10 welcome_note
       \<in> set (notifications (snd (createNotification no_transport_env welcome_note empty_state)))"
proof -
  have h: "accepted no_transport_env welcome_note"
    by (simp add: accepted_def no_transport_env_def)
  have n: "nextId empty_state = 10" by (simp add: empty_state_def)
  have t: "\<not> emailTransporter no_transport_env" by (simp add: no_transport_env_def)
  have w: "nd_sendEmail welcome_note = Some True" by (simp add: welcome_note_def)
  show ?thesis
    using h t w createNotification_tolerates_email_failure [OF h, of empty_state]
    by (simp add: n)
qed

section \<open>What the fan-out returns\<close>

lemma settled_recipients:
  "map userId (drop (length (notifications s))
      (notifications (tripDeleted_settled env tid tt ps org s)))
     = filter (\<lambda>p. accepted env (tripDeletedData tid tt org p)) ps"
  "map userId (drop (length (notifications s))
      (notifications (tripUpdate_settled env tid tt ps org cs s)))
     = filter (\<lambda>p. accepted env (tripUpdateData tid tt org cs p)) ps"
  using fanOut_recipients [OF tripDeleted_settled_effect]
    fanOut_recipients [OF tripUpdate_settled_effect]
  by simp_all





section \<open>The event builders never raise\<close>

lemma trip_data_userId [simp]:
  "nd_userId (tripJoinData trip org nm u) = user_id org"
  "nd_userId (tripLeaveData trip org nm u) = user_id org"
  by (simp_all add: tripJoinData_def tripLeaveData_def)

lemma emailLines_update [simp]:
  "emailLines env us i (map (tripUpdateData tid tt org cs) ps) = []"
  by (induction ps arbitrary: i) (simp_all add: tripUpdateData_def)

lemma awaitAll_accepted_log:
  "\<forall>d \<in> set ds. accepted env d \<Longrightarrow>
   log (fst (snd (awaitAll env ds s))) = log s @ emailLines env (users s) (nextId s) ds"
proof (induction ds arbitrary: s)
  case Nil
  then show ?case by simp
next
  case (Cons d ds)
  from Cons.prems have a: "accepted env d" and rest: "\<forall>d \<in> set ds. accepted env d" by simp_all
  from create_accepted [OF a, of s] obtain s1 where
    c: "createNotification env d s = (Inr (newDocument (nextId s) d), s1)"
    and n: "nextId s1 = Suc (nextId s)" and u: "users s1 = users s"
    by blast
  from create_accepted_log [OF a, of s] c
  have l: "log s1 = log s @ (if nd_sendEmail d = Some True \<and> emailTransporter env
                   \<and> email_fails env (users s) (newDocument (nextId s) d)
                then [''Error sending email notification:''] else [])"
    by simp
  have "fst (snd (awaitAll env (d # ds) s)) = fst (snd (awaitAll env ds s1))"
    by (simp add: c split: prod.split sum.split)
  then have "log (fst (snd (awaitAll env (d # ds) s)))
      = log s1 @ emailLines env (users s1) (nextId s1) ds"
    using Cons.IH [OF rest, of s1] by simp
  then show ?case by (simp add: l n u)
qed

lemma fanOut_accepted_log:
  assumes "\<forall>d \<in> set ds. accepted env d"
  shows "log (snd (try_catch (fanOut_body env ds s) (\<lambda>e s'. (Inr (), console_error l s'))))
     = log s @ emailLines env (users s) (nextId s) ds"
proof -
  from awaitAll_effect [of env ds s] obtain r s1 where
    a: "awaitAll env ds s = (r, s1, tl (dropWhile (accepted env) ds))"
    and r: "isl r \<longleftrightarrow> (\<exists>d \<in> set ds. \<not> accepted env d)"
    by blast
  from r assms have "\<not> isl r" by simp
  then have "snd (try_catch (fanOut_body env ds s) (\<lambda>e s'. (Inr (), console_error l s'))) = s1"
    by (cases r) (simp_all add: fanOut_body_def a)
  moreover have "log s1 = log s @ emailLines env (users s) (nextId s) ds"
    using awaitAll_accepted_log [OF assms, of s] by (simp add: a)
  ultimately show ?thesis by simp
qed

text \<open>
  Claim C10, as amended. The four event builders never reject, in any environment, and
  every failure inside them is logged.

  \<^item> \<^verbatim>\<open>notifyTripJoin\<close> and \<^verbatim>\<open>notifyTripLeave\<close>, the two builders that look the trip up:
    when the trip is not in the collection they leave the notifications as they are (and
    the whole state, when the lookup itself does not fail). A rejected lookup, and an
    organizer whose account is gone (the TypeError), leave the state as it was but for
    the builder's line in the log. A rejected insert leaves the state as it was but for
    the line of \<^verbatim>\<open>createNotification\<close> followed by the builder's line. When the insert is
    accepted, exactly the notification for the organizer is added, and the log gets the
    line of the email dispatch if that fails, and nothing else.
  \<^item> \<^verbatim>\<open>notifyTripDeleted\<close> and \<^verbatim>\<open>notifyTripUpdate\<close> look no trip up and notify the
    participants they are given: once the creates have settled, the recipients of the
    documents added are the participants whose insert was accepted. When an insert is
    rejected the builder returns with its own line last in the log, after the line of
    \<^verbatim>\<open>createNotification\<close>. When every insert is accepted the log gets one line for each
    email dispatch that fails, and nothing else (none for an update, which sends no mail).
  \<^item> The responses of the join, leave and delete routes of the trips do not depend on
    any failure inside the notification service: two environments that agree on the
    routes' own calls give the same response.
\<close>

theorem event_builders_never_raise:
  "fst (notifyTripJoin env tid travelerName travelerId s) = Inr ()
   \<and> fst (notifyTripLeave env tid travelerName travelerId s) = Inr ()
   \<and> fst (notifyTripDeleted env tid ttitle participantIds organizerName s) = Inr ()
   \<and> fst (notifyTripUpdate env tid ttitle participantIds organizerName changeList s) = Inr ()
   \<and> (find (\<lambda>t. trip_id t = tid) (trips s) = None \<longrightarrow>
        notifications (snd (notifyTripJoin env tid travelerName travelerId s)) = notifications s
      \<and> notifications (snd (notifyTripLeave env tid travelerName travelerId s)) = notifications s)
   \<and> (find (\<lambda>t. trip_id t = tid) (trips s) = None \<and> \<not> throws env (Trip_findById Service tid) \<longrightarrow>
        snd (notifyTripJoin env tid travelerName travelerId s) = s
      \<and> snd (notifyTripLeave env tid travelerName travelerId s) = s)
   \<and> (throws env (Trip_findById Service tid) \<longrightarrow>
        snd (notifyTripJoin env tid travelerName travelerId s)
          = console_error ''Error notifying trip join:'' s
      \<and> snd (notifyTripLeave env tid travelerName travelerId s)
          = console_error ''Error notifying trip leave:'' s)
   \<and> (same_route_calls env env' \<longrightarrow>
        fst (trip_join_route env auth tripParam s) = fst (trip_join_route env' auth tripParam s)
      \<and> fst (trip_leave_route env auth tripParam s) = fst (trip_leave_route env' auth tripParam s)
      \<and> fst (trip_delete_route env auth tripParam s) = fst (trip_delete_route env' auth tripParam s))
   \<and> (\<not> throws env (Trip_findById Service tid)
        \<and> find (\<lambda>t. trip_id t = tid) (trips s) = Some trip
        \<and> find (\<lambda>u. user_id u = organizerId trip) (users s) = None \<longrightarrow>
        snd (notifyTripJoin env tid travelerName travelerId s)
          = console_error ''Error notifying trip join:'' s
      \<and> snd (notifyTripLeave env tid travelerName travelerId s)
          = console_error ''Error notifying trip leave:'' s)
   \<and> (\<not> throws env (Trip_findById Service tid)
        \<and> find (\<lambda>t. trip_id t = tid) (trips s) = Some trip
        \<and> find (\<lambda>u. user_id u = organizerId trip) (users s) = Some org
        \<and> \<not> accepted env (tripJoinData trip org travelerName travelerId) \<longrightarrow>
        snd (notifyTripJoin env tid travelerName travelerId s)
          = console_error ''Error notifying trip join:''
              (console_error ''Error creating notification:'' s))
   \<and> (\<not> throws env (Trip_findById Service tid)
        \<and> find (\<lambda>t. trip_id t = tid) (trips s) = Some trip
        \<and> find (\<lambda>u. user_id u = organizerId trip) (users s) = Some org
        \<and> \<not> accepted env (tripLeaveData trip org travelerName travelerId) \<longrightarrow>
        snd (notifyTripLeave env tid travelerName travelerId s)
          = console_error ''Error notifying trip leave:''
              (console_error ''Error creating notification:'' s))
   \<and> (\<not> throws env (Trip_findById Service tid)
        \<and> find (\<lambda>t. trip_id t = tid) (trips s) = Some trip
        \<and> find (\<lambda>u. user_id u = organizerId trip) (users s) = Some org
        \<and> accepted env (tripJoinData trip org travelerName travelerId) \<longrightarrow>
        map forgetEmail (notifications (snd (notifyTripJoin env tid travelerName travelerId s)))
          = map forgetEmail (notifications s)
              @ [newDocument (nextId s) (tripJoinData trip org travelerName travelerId)]
      \<and> log (snd (notifyTripJoin env tid travelerName travelerId s))
          = log s @ emailLines env (users s) (nextId s)
                      [tripJoinData trip org travelerName travelerId])
   \<and> (\<not> throws env (Trip_findById Service tid)
        \<and> find (\<lambda>t. trip_id t = tid) (trips s) = Some trip
        \<and> find (\<lambda>u. user_id u = organizerId trip) (users s) = Some org
        \<and> accepted env (tripLeaveData trip org travelerName travelerId) \<longrightarrow>
        map forgetEmail (notifications (snd (notifyTripLeave env tid travelerName travelerId s)))
          = map forgetEmail (notifications s)
              @ [newDocument (nextId s) (tripLeaveData trip org travelerName travelerId)]
      \<and> log (snd (notifyTripLeave env tid travelerName travelerId s))
          = log s @ emailLines env (users s) (nextId s)
                      [tripLeaveData trip org travelerName travelerId])
   \<and> map userId (drop (length (notifications s))
        (notifications (tripDeleted_settled env tid ttitle participantIds organizerName s)))
       = filter (\<lambda>p. accepted env (tripDeletedData tid ttitle organizerName p)) participantIds
   \<and> map userId (drop (length (notifications s))
        (notifications (tripUpdate_settled env tid ttitle participantIds organizerName changeList s)))
       = filter (\<lambda>p. accepted env (tripUpdateData tid ttitle organizerName changeList p)) participantIds
   \<and> ((\<exists>p \<in> set participantIds. \<not> accepted env (tripDeletedData tid ttitle organizerName p)) \<longrightarrow>
        last (log (snd (notifyTripDeleted env tid ttitle participantIds organizerName s)))
          = ''Error notifying trip deletion:''
      \<and> ''Error creating notification:''
          \<in> set (drop (length (log s))
               (log (snd (notifyTripDeleted env tid ttitle participantIds organizerName s)))))
   \<and> ((\<exists>p \<in> set participantIds.
          \<not> accepted env (tripUpdateData tid ttitle organizerName changeList p)) \<longrightarrow>
        last (log (snd (notifyTripUpdate env tid ttitle participantIds organizerName changeList s)))
          = ''Error notifying trip update:''
      \<and> ''Error creating notification:''
          \<in> set (drop (length (log s))
               (log (snd (notifyTripUpdate env tid ttitle participantIds organizerName changeList s)))))
   \<and> ((\<forall>p \<in> set participantIds. accepted env (tripDeletedData tid ttitle organizerName p)) \<longrightarrow>
        log (snd (notifyTripDeleted env tid ttitle participantIds organizerName s))
          = log s @ emailLines env (users s) (nextId s)
                      (map (tripDeletedData tid ttitle organizerName) participantIds))
   \<and> ((\<forall>p \<in> set participantIds.
          accepted env (tripUpdateData tid ttitle organizerName changeList p)) \<longrightarrow>
        log (snd (notifyTripUpdate env tid ttitle participantIds organizerName changeList s))
          = log s)"
proof -
  let ?j = "\<lambda>trip org. tripJoinData trip org travelerName travelerId"
  let ?l = "\<lambda>trip org. tripLeaveData trip org travelerName travelerId"
  let ?dd = "map (tripDeletedData tid ttitle organizerName) participantIds"
  let ?ud = "map (tripUpdateData tid ttitle organizerName changeList) participantIds"
  have absent: "notifications (snd (notifyTripJoin env tid travelerName travelerId s)) = notifications s
      \<and> notifications (snd (notifyTripLeave env tid travelerName travelerId s)) = notifications s"
    if "find (\<lambda>t. trip_id t = tid) (trips s) = None"
    unfolding notifyTripJoin_def notifyTripLeave_def
    using notifyTrip_absent_notifications(1) [OF that] by simp
  have routes: "fst (trip_join_route env auth tripParam s) = fst (trip_join_route env' auth tripParam s)
      \<and> fst (trip_leave_route env auth tripParam s) = fst (trip_leave_route env' auth tripParam s)
      \<and> fst (trip_delete_route env auth tripParam s) = fst (trip_delete_route env' auth tripParam s)"
    if "same_route_calls env env'"
    using that trip_join_route_response trip_leave_route_response trip_delete_route_response
    by simp
  have quiet: "snd (notifyTripJoin env tid travelerName travelerId s) = s
      \<and> snd (notifyTripLeave env tid travelerName travelerId s) = s"
    if "find (\<lambda>t. trip_id t = tid) (trips s) = None \<and> \<not> throws env (Trip_findById Service tid)"
    unfolding notifyTripJoin_def notifyTripLeave_def
    using notifyTrip_absent_notifications(2) [of tid s env] that by simp
  have logged: "snd (notifyTripJoin env tid travelerName travelerId s)
          = console_error ''Error notifying trip join:'' s
      \<and> snd (notifyTripLeave env tid travelerName travelerId s)
          = console_error ''Error notifying trip leave:'' s"
    if "throws env (Trip_findById Service tid)"
    using that by (simp add: notifyTripJoin_def notifyTripLeave_def notifyTrip_body_def)
  have typeerror: "snd (notifyTripJoin env tid travelerName travelerId s)
          = console_error ''Error notifying trip join:'' s
      \<and> snd (notifyTripLeave env tid travelerName travelerId s)
          = console_error ''Error notifying trip leave:'' s"
    if "\<not> throws env (Trip_findById Service tid)
        \<and> find (\<lambda>t. trip_id t = tid) (trips s) = Some trip
        \<and> find (\<lambda>u. user_id u = organizerId trip) (users s) = None"
    using that by (simp add: notifyTripJoin_def notifyTripLeave_def notifyTrip_body_def)
  have jr: "snd (notifyTripJoin env tid travelerName travelerId s)
          = console_error ''Error notifying trip join:''
              (console_error ''Error creating notification:'' s)"
    if "\<not> throws env (Trip_findById Service tid)
        \<and> find (\<lambda>t. trip_id t = tid) (trips s) = Some trip
        \<and> find (\<lambda>u. user_id u = organizerId trip) (users s) = Some org
        \<and> \<not> accepted env (tripJoinData trip org travelerName travelerId)"
    using that by (simp add: notifyTripJoin_def notifyTrip_body_def create_rejected)
  have lr: "snd (notifyTripLeave env tid travelerName travelerId s)
          = console_error ''Error notifying trip leave:''
              (console_error ''Error creating notification:'' s)"
    if "\<not> throws env (Trip_findById Service tid)
        \<and> find (\<lambda>t. trip_id t = tid) (trips s) = Some trip
        \<and> find (\<lambda>u. user_id u = organizerId trip) (users s) = Some org
        \<and> \<not> accepted env (tripLeaveData trip org travelerName travelerId)"
    using that by (simp add: notifyTripLeave_def notifyTrip_body_def create_rejected)
  have ja: "map forgetEmail (notifications (snd (notifyTripJoin env tid travelerName travelerId s)))
          = map forgetEmail (notifications s)
              @ [newDocument (nextId s) (tripJoinData trip org travelerName travelerId)]
      \<and> log (snd (notifyTripJoin env tid travelerName travelerId s))
          = log s @ emailLines env (users s) (nextId s)
                      [tripJoinData trip org travelerName travelerId]"
    if h: "\<not> throws env (Trip_findById Service tid)
        \<and> find (\<lambda>t. trip_id t = tid) (trips s) = Some trip
        \<and> find (\<lambda>u. user_id u = organizerId trip) (users s) = Some org
        \<and> accepted env (tripJoinData trip org travelerName travelerId)"
  proof -
    from h have a: "accepted env (tripJoinData trip org travelerName travelerId)" by simp
    from create_accepted [OF a, of s] obtain s1 where
      c: "createNotification env (tripJoinData trip org travelerName travelerId) s
            = (Inr (newDocument (nextId s) (tripJoinData trip org travelerName travelerId)), s1)"
      and f: "map forgetEmail (notifications s1) = map forgetEmail (notifications s)
              @ [newDocument (nextId s) (tripJoinData trip org travelerName travelerId)]"
      by blast
    from h c have r: "snd (notifyTripJoin env tid travelerName travelerId s) = s1"
      by (simp add: notifyTripJoin_def notifyTrip_body_def)
    from create_accepted_log [OF a, of s] c
    have "log s1 = log s @ emailLines env (users s) (nextId s)
                      [tripJoinData trip org travelerName travelerId]"
      by simp
    with f r show ?thesis by simp
  qed
  have la: "map forgetEmail (notifications (snd (notifyTripLeave env tid travelerName travelerId s)))
          = map forgetEmail (notifications s)
              @ [newDocument (nextId s) (tripLeaveData trip org travelerName travelerId)]
      \<and> log (snd (notifyTripLeave env tid travelerName travelerId s))
          = log s @ emailLines env (users s) (nextId s)
                      [tripLeaveData trip org travelerName travelerId]"
    if h: "\<not> throws env (Trip_findById Service tid)
        \<and> find (\<lambda>t. trip_id t = tid) (trips s) = Some trip
        \<and> find (\<lambda>u. user_id u = organizerId trip) (users s) = Some org
        \<and> accepted env (tripLeaveData trip org travelerName travelerId)"
  proof -
    from h have a: "accepted env (tripLeaveData trip org travelerName travelerId)" by simp
    from create_accepted [OF a, of s] obtain s1 where
      c: "createNotification env (tripLeaveData trip org travelerName travelerId) s
            = (Inr (newDocument (nextId s) (tripLeaveData trip org travelerName travelerId)), s1)"
      and f: "map forgetEmail (notifications s1) = map forgetEmail (notifications s)
              @ [newDocument (nextId s) (tripLeaveData trip org travelerName travelerId)]"
      by blast
    from h c have r: "snd (notifyTripLeave env tid travelerName travelerId s) = s1"
      by (simp add: notifyTripLeave_def notifyTrip_body_def)
    from create_accepted_log [OF a, of s] c
    have "log s1 = log s @ emailLines env (users s) (nextId s)
                      [tripLeaveData trip org travelerName travelerId]"
      by simp
    with f r show ?thesis by simp
  qed
  have dr: "last (log (snd (notifyTripDeleted env tid ttitle participantIds organizerName s)))
          = ''Error notifying trip deletion:''
      \<and> ''Error creating notification:''
          \<in> set (drop (length (log s))
               (log (snd (notifyTripDeleted env tid ttitle participantIds organizerName s))))"
    if "\<exists>p \<in> set participantIds. \<not> accepted env (tripDeletedData tid ttitle organizerName p)"
  proof -
    from that have "\<exists>d \<in> set ?dd. \<not> accepted env d" by simp
    from fanOut_log_rejected [OF this] show ?thesis by (simp only: notifyTripDeleted_def)
  qed
  have ur: "last (log (snd (notifyTripUpdate env tid ttitle participantIds organizerName changeList s)))
          = ''Error notifying trip update:''
      \<and> ''Error creating notification:''
          \<in> set (drop (length (log s))
               (log (snd (notifyTripUpdate env tid ttitle participantIds organizerName changeList s))))"
    if "\<exists>p \<in> set participantIds.
          \<not> accepted env (tripUpdateData tid ttitle organizerName changeList p)"
  proof -
    from that have "\<exists>d \<in> set ?ud. \<not> accepted env d" by simp
    from fanOut_log_rejected [OF this] show ?thesis by (simp only: notifyTripUpdate_def)
  qed
  have da: "log (snd (notifyTripDeleted env tid ttitle participantIds organizerName s))
          = log s @ emailLines env (users s) (nextId s) ?dd"
    if "\<forall>p \<in> set participantIds. accepted env (tripDeletedData tid ttitle organizerName p)"
  proof -
    from that have a: "\<forall>d \<in> set ?dd. accepted env d" by simp
    from fanOut_accepted_log [OF a] show ?thesis by (simp only: notifyTripDeleted_def)
  qed
  have ua: "log (snd (notifyTripUpdate env tid ttitle participantIds organizerName changeList s))
          = log s"
    if "\<forall>p \<in> set participantIds.
          accepted env (tripUpdateData tid ttitle organizerName changeList p)"
  proof -
    from that have a: "\<forall>d \<in> set ?ud. accepted env d" by simp
    from fanOut_accepted_log [OF a, of s "''Error notifying trip update:''"]
    show ?thesis by (simp add: notifyTripUpdate_def)
  qed
  note rets = notifyTripJoin_returns [of env tid travelerName travelerId s]
    notifyTripLeave_returns [of env tid travelerName travelerId s]
    notifyTripDeleted_returns [of env tid ttitle participantIds organizerName s]
    notifyTripUpdate_returns [of env tid ttitle participantIds organizerName changeList s]
  note recs = settled_recipients [of s env tid ttitle participantIds organizerName]
  show ?thesis
    by (intro conjI; (rule impI)?;
        (rule rets recs | erule absent quiet logged routes typeerror jr lr ja la dr ur da ua))
qed

theorem event_builders_never_raise_witness:
  "find (\<lambda>t. trip_id t = 7) (trips trip_state) = None
   \<and> same_route_calls service_down_env quiet_env
   \<and> fst (notifyTripJoin service_down_env 7 ''B'' 2 trip_state) = Inr ()
   \<and> notifications (snd (notifyTripJoin service_down_env 7 ''B'' 2 trip_state))
       = notifications trip_state
   \<and> throws service_down_env (Trip_findById Service 7)
   \<and> log (snd (notifyTripJoin service_down_env 7 ''B'' 2 trip_state))
       = [''Error notifying trip join:'']
   \<and> fst (trip_join_route service_down_env \<lparr>auth_userId = 3, auth_role = traveler\<rparr> (ValidId 5) trip_state)
       = fst (trip_join_route quiet_env \<lparr>auth_userId = 3, auth_role = traveler\<rparr> (ValidId 5) trip_state)
   \<and> snd (notifyTripLeave quiet_env 7 ''B'' 2 trip_state) = trip_state
   \<and> find (\<lambda>t. trip_id t = 8) (trips trip_state) = Some (trips trip_state ! 2)
   \<and> find (\<lambda>u. user_id u = organizerId (trips trip_state ! 2)) (users trip_state) = None
   \<and> log (snd (notifyTripJoin quiet_env 8 ''B'' 2 trip_state)) = [''Error notifying trip join:'']
   \<and> notifications (snd (notifyTripJoin quiet_env 8 ''B'' 2 trip_state)) = []
   \<and> find (\<lambda>t. trip_id t = 6) (trips trip_state) = Some (trips trip_state ! 1)
   \<and> find (\<lambda>u. user_id u = organizerId (trips trip_state ! 1)) (users trip_state)
       = Some (users trip_state ! 1)
   \<and> \<not> accepted insert_fails_env (tripJoinData (trips trip_state ! 1) (users trip_state ! 1) ''C'' 3)
   \<and> log (snd (notifyTripJoin insert_fails_env 6 ''C'' 3 trip_state))
       = [''Error creating notification:'', ''Error notifying trip join:'']
   \<and> log (snd (notifyTripLeave insert_fails_env 6 ''C'' 3 trip_state))
       = [''Error creating notification:'', ''Error notifying trip leave:'']
   \<and> notifications (snd (notifyTripJoin insert_fails_env 6 ''C'' 3 trip_state)) = []
   \<and> last (log (snd (notifyTripDeleted insert_fails_env 6 ''Fjords'' [1, 2, 3] ''B'' trip_state)))
       = ''Error notifying trip deletion:''
   \<and> ''Error creating notification:''
       \<in> set (log (snd (notifyTripDeleted insert_fails_env 6 ''Fjords'' [1, 2, 3] ''B'' trip_state)))
   \<and> last (log (snd (notifyTripUpdate insert_fails_env 6 ''Fjords'' [1, 2, 3] ''B'' [''dates'']
        trip_state))) = ''Error notifying trip update:''
   \<and> map userId (notifications
        (tripDeleted_settled insert_fails_env 6 ''Fjords'' [1, 2, 3] ''B'' trip_state)) = [1, 3]
   \<and> map userId (notifications
        (tripUpdate_settled insert_fails_env 6 ''Fjords'' [1, 2, 3] ''B'' [''dates''] trip_state))
       = [1, 3]
   \<and> accepted mail_fails_env (tripJoinData (trips trip_state ! 1) (users trip_state ! 1) ''C'' 3)
   \<and> map userId (notifications (snd (notifyTripJoin mail_fails_env 6 ''C'' 3 trip_state))) = [2]
   \<and> log (snd (notifyTripJoin mail_fails_env 6 ''C'' 3 trip_state))
       = [''Error sending email notification:'']
   \<and> log (snd (notifyTripLeave mail_fails_env 6 ''C'' 3 trip_state))
       = [''Error sending email notification:'']
   \<and> log (snd (notifyTripDeleted mail_fails_env 6 ''Fjords'' [1, 2, 3] ''B'' trip_state))
       = [''Error sending email notification:'']
   \<and> log (snd (notifyTripUpdate mail_fails_env 6 ''Fjords'' [1, 2, 3] ''B'' [''dates''] trip_state))
       = []
   \<and> map userId (notifications (snd (notifyTripJoin quiet_env 5 ''B'' 2 trip_state))) = [1]
   \<and> log (snd (notifyTripJoin quiet_env 5 ''B'' 2 trip_state)) = []"
proof -
  let ?auth = "\<lparr>auth_userId = 3, auth_role = traveler\<rparr>"
  let ?t5 = "trips trip_state ! 0" and ?t6 = "trips trip_state ! 1" and ?t8 = "trips trip_state ! 2"
  let ?u1 = "users trip_state ! 0" and ?u2 = "users trip_state ! 1"
  have st: "notifications trip_state = []" "log trip_state = []" "nextId trip_state = 10"
    "users trip_state = three_users"
    by (simp_all add: trip_state_def)
  have t7: "find (\<lambda>t. trip_id t = 7) (trips trip_state) = None"
    and t8: "find (\<lambda>t. trip_id t = 8) (trips trip_state) = Some ?t8"
    and t6: "find (\<lambda>t. trip_id t = 6) (trips trip_state) = Some ?t6"
    and t5: "find (\<lambda>t. trip_id t = 5) (trips trip_state) = Some ?t5"
    by (simp_all add: trip_state_def)
  have o8: "find (\<lambda>u. user_id u = organizerId ?t8) (users trip_state) = None"
    and o6: "find (\<lambda>u. user_id u = organizerId ?t6) (users trip_state) = Some ?u2"
    and o5: "find (\<lambda>u. user_id u = organizerId ?t5) (users trip_state) = Some ?u1"
    by (simp_all add: trip_state_def three_users_def)
  have ids: "user_id ?u1 = 1" "user_id ?u2 = 2" "user_id (users trip_state ! Suc 0) = 2"
    "user_id (three_users ! 0) = 1" "user_id (three_users ! Suc 0) = 2"
    by (simp_all add: trip_state_def three_users_def)
  have same: "same_route_calls service_down_env quiet_env"
    by (simp add: same_route_calls_def service_down_env_def quiet_env_def)
  have down: "throws service_down_env (Trip_findById Service 7)"
    by (simp add: service_down_env_def)
  have up: "\<not> throws quiet_env c" "\<not> throws insert_fails_env (Trip_findById Service i)"
    "\<not> throws mail_fails_env (Trip_findById Service i)" for c i
    by (simp_all add: quiet_env_def insert_fails_env_def mail_fails_env_def)
  have acc: "accepted quiet_env d" "accepted mail_fails_env d"
    "accepted insert_fails_env d = (nd_userId d \<noteq> 2)" for d
    by (simp_all add: accepted_def quiet_env_def mail_fails_env_def insert_fails_env_def)
  have tr: "emailTransporter quiet_env" "emailTransporter mail_fails_env"
    by (simp_all add: quiet_env_def mail_fails_env_def)
  have ef: "\<not> email_fails quiet_env three_users (newDocument i d)"
    "email_fails mail_fails_env three_users (newDocument i d) = (nd_userId d = 2)" for i d
    by (auto simp add: email_fails_def quiet_env_def mail_fails_env_def newDocument_def
          three_users_def)
  note w1 = event_builders_never_raise [where env = service_down_env and tid = 7
      and travelerName = "''B''" and travelerId = 2 and s = trip_state and ttitle = "''Alps''"
      and participantIds = "[]" and organizerName = "''A''" and changeList = "[]"
      and env' = quiet_env and auth = ?auth and tripParam = "ValidId 5" and trip = ?t5
      and org = ?u1]
  have a1: "fst (notifyTripJoin service_down_env 7 ''B'' 2 trip_state) = Inr ()"
    "notifications (snd (notifyTripJoin service_down_env 7 ''B'' 2 trip_state))
       = notifications trip_state"
    "log (snd (notifyTripJoin service_down_env 7 ''B'' 2 trip_state))
       = [''Error notifying trip join:'']"
    "fst (trip_join_route service_down_env ?auth (ValidId 5) trip_state)
       = fst (trip_join_route quiet_env ?auth (ValidId 5) trip_state)"
    using w1 t7 same down by (simp_all add: st)
  note w2 = event_builders_never_raise [where env = quiet_env and tid = 7
      and travelerName = "''B''" and travelerId = 2 and s = trip_state and ttitle = "''Alps''"
      and participantIds = "[]" and organizerName = "''A''" and changeList = "[]"
      and env' = quiet_env and auth = ?auth and tripParam = "ValidId 5" and trip = ?t5
      and org = ?u1]
  have a2: "snd (notifyTripLeave quiet_env 7 ''B'' 2 trip_state) = trip_state"
    using w2 t7 up(1) by simp
  note w3 = event_builders_never_raise [where env = quiet_env and tid = 8
      and travelerName = "''B''" and travelerId = 2 and s = trip_state and ttitle = "''Alps''"
      and participantIds = "[]" and organizerName = "''A''" and changeList = "[]"
      and env' = quiet_env and auth = ?auth and tripParam = "ValidId 5" and trip = ?t8
      and org = ?u1]
  have a3: "log (snd (notifyTripJoin quiet_env 8 ''B'' 2 trip_state)) = [''Error notifying trip join:'']"
    "notifications (snd (notifyTripJoin quiet_env 8 ''B'' 2 trip_state)) = []"
    using w3 t8 o8 up(1) by (simp_all add: st)
  note w4 = event_builders_never_raise [where env = insert_fails_env and tid = 6
      and travelerName = "''C''" and travelerId = 3 and s = trip_state and ttitle = "''Fjords''"
      and participantIds = "[1, 2, 3]" and organizerName = "''B''" and changeList = "[''dates'']"
      and env' = quiet_env and auth = ?auth and tripParam = "ValidId 5" and trip = ?t6
      and org = ?u2]
  have r4: "\<not> accepted insert_fails_env (tripJoinData ?t6 ?u2 ''C'' 3)"
    "\<not> accepted insert_fails_env (tripLeaveData ?t6 ?u2 ''C'' 3)"
    by (simp_all add: acc ids)
  have a4: "log (snd (notifyTripJoin insert_fails_env 6 ''C'' 3 trip_state))
       = [''Error creating notification:'', ''Error notifying trip join:'']"
    "log (snd (notifyTripLeave insert_fails_env 6 ''C'' 3 trip_state))
       = [''Error creating notification:'', ''Error notifying trip leave:'']"
    "notifications (snd (notifyTripJoin insert_fails_env 6 ''C'' 3 trip_state)) = []"
    using w4 t6 o6 r4 up(2) by (simp_all add: st)
  have b4: "last (log (snd (notifyTripDeleted insert_fails_env 6 ''Fjords'' [1, 2, 3] ''B'' trip_state)))
       = ''Error notifying trip deletion:''"
    "''Error creating notification:''
       \<in> set (log (snd (notifyTripDeleted insert_fails_env 6 ''Fjords'' [1, 2, 3] ''B'' trip_state)))"
    "last (log (snd (notifyTripUpdate insert_fails_env 6 ''Fjords'' [1, 2, 3] ''B'' [''dates'']
        trip_state))) = ''Error notifying trip update:''"
    "map userId (notifications
        (tripDeleted_settled insert_fails_env 6 ''Fjords'' [1, 2, 3] ''B'' trip_state)) = [1, 3]"
    "map userId (notifications
        (tripUpdate_settled insert_fails_env 6 ''Fjords'' [1, 2, 3] ''B'' [''dates''] trip_state))
       = [1, 3]"
    using w4 by (simp_all add: st acc)
  note w5 = event_builders_never_raise [where env = mail_fails_env and tid = 6
      and travelerName = "''C''" and travelerId = 3 and s = trip_state and ttitle = "''Fjords''"
      and participantIds = "[1, 2, 3]" and organizerName = "''B''" and changeList = "[''dates'']"
      and env' = quiet_env and auth = ?auth and tripParam = "ValidId 5" and trip = ?t6
      and org = ?u2]
  have f5: "map forgetEmail (notifications (snd (notifyTripJoin mail_fails_env 6 ''C'' 3 trip_state)))
       = [newDocument 10 (tripJoinData ?t6 ?u2 ''C'' 3)]"
    using w5 t6 o6 up(3) by (simp add: st acc)
  have a5: "log (snd (notifyTripJoin mail_fails_env 6 ''C'' 3 trip_state))
       = [''Error sending email notification:'']"
    "log (snd (notifyTripLeave mail_fails_env 6 ''C'' 3 trip_state))
       = [''Error sending email notification:'']"
    "log (snd (notifyTripDeleted mail_fails_env 6 ''Fjords'' [1, 2, 3] ''B'' trip_state))
       = [''Error sending email notification:'']"
    "log (snd (notifyTripUpdate mail_fails_env 6 ''Fjords'' [1, 2, 3] ''B'' [''dates''] trip_state))
       = []"
    using w5 t6 o6 up(3) by (simp_all add: st acc tr ef ids tripDeletedData_def)
  have b5: "map userId (notifications (snd (notifyTripJoin mail_fails_env 6 ''C'' 3 trip_state))) = [2]"
    using recipients_of_forget [OF f5] by (simp add: newDocument_def ids)
  note w6 = event_builders_never_raise [where env = quiet_env and tid = 5
      and travelerName = "''B''" and travelerId = 2 and s = trip_state and ttitle = "''Alps''"
      and participantIds = "[]" and organizerName = "''A''" and changeList = "[]"
      and env' = quiet_env and auth = ?auth and tripParam = "ValidId 5" and trip = ?t5
      and org = ?u1]
  have f6: "map forgetEmail (notifications (snd (notifyTripJoin quiet_env 5 ''B'' 2 trip_state)))
       = [newDocument 10 (tripJoinData ?t5 ?u1 ''B'' 2)]"
    using w6 t5 o5 up(1) by (simp add: st acc)
  have a6: "log (snd (notifyTripJoin quiet_env 5 ''B'' 2 trip_state)) = []"
    using w6 t5 o5 up(1) by (simp add: st acc tr ef ids)
  have b6: "map userId (notifications (snd (notifyTripJoin quiet_env 5 ''B'' 2 trip_state))) = [1]"
    using recipients_of_forget [OF f6] by (simp add: newDocument_def ids)
  show ?thesis
    using t7 same down a1 a2 t8 o8 a3 t6 o6 r4(1) a4 b4 acc(2) a5 b5 a6 b6
    by simp
qed

text \<open>The claim as stated fails for \<^verbatim>\<open>notifyTripDeleted\<close>, which looks no trip up: trip 7
  is not in the collection, and the builder creates its three notifications.\<close>

theorem notifyTripDeleted_absent_trip_counterexample:
  "find (\<lambda>t. trip_id t = 7) (trips empty_state) = None
   \<and> map userId (notifications
        (snd (notifyTripDeleted quiet_env 7 ''Alps'' [1, 2, 3] ''O'' empty_state))) = [1, 2, 3]"
proof -
  have e: "notifications empty_state = []" "trips empty_state = []"
    by (simp_all add: empty_state_def)
  have "\<forall>p \<in> set [1, 2, 3]. accepted quiet_env (tripDeletedData 7 ''Alps'' ''O'' p)"
    by (simp add: accepted_def quiet_env_def)
  from notifyTripDeleted_all_accepted [OF this]
  have "map forgetEmail
        (notifications (snd (notifyTripDeleted quiet_env 7 ''Alps'' [1, 2, 3] ''O'' empty_state)))
      = map forgetEmail (notifications empty_state) @ newDocuments (nextId empty_state)
          (filter (accepted quiet_env) (map (tripDeletedData 7 ''Alps'' ''O'') [1, 2, 3]))" .
  from fanOut_recipients [OF this] show ?thesis
    by (simp add: e accepted_def quiet_env_def)
qed

section \<open>Unread counts\<close>

lemma route_of_body:
  "fst (case X of (Inl e, s1) \<Rightarrow> (F e, G s1) | (Inr r, s1) \<Rightarrow> (r, s1))
     = (case fst X of Inl e \<Rightarrow> F e | Inr r \<Rightarrow> r)"
  "snd (case X of (Inl e, s1) \<Rightarrow> (F e, G s1) | (Inr r, s1) \<Rightarrow> (r, s1))
     = (case fst X of Inl e \<Rightarrow> G (snd X) | Inr r \<Rightarrow> snd X)"
  by (cases X; simp split: sum.split)+

lemma countUnread_Cons [simp]:
  "countUnread u (n # ns) = (if userId n = u \<and> \<not> read n then Suc (countUnread u ns) else countUnread u ns)"
  by (simp add: countUnread_def)

lemma countUnread_Nil [simp]: "countUnread u [] = 0"
  by (simp add: countUnread_def)

lemma countUnread_markAll:
  "countUnread u (map (\<lambda>n. if userId n = v \<and> \<not> read n then n\<lparr>read := True\<rparr> else n) ns)
     = (if u = v then 0 else countUnread u ns)"
  by (induction ns) auto

lemma mark_all_read_route_cases:
  "mark_all_read_route env auth s =
     (if throws env Notification_updateMany
      then (\<lparr>status = 500,
              body = [(''error'', JString ''Failed to mark all notifications as read''),
                      (''details'', JMessageOf (Rejected Notification_updateMany))]\<rparr>,
            console_error ''Error marking all notifications as read:'' s)
      else (\<lparr>status = 200,
              body = [(''success'', JBool True),
                      (''message'', JString (string_of_nat (countUnread (auth_userId auth) (notifications s))
                         @ '' notifications marked as read''))]\<rparr>,
            s\<lparr>notifications :=
                 map (\<lambda>n. if userId n = auth_userId auth \<and> \<not> read n then n\<lparr>read := True\<rparr> else n)
                   (notifications s)\<rparr>))"
  by (simp add: mark_all_read_route_def mark_all_read_body_def Let_def)

section \<open>Mark all as read\<close>

text \<open>
  Claim C6. After the mark-all-read request of recipient R has completed, the unread
  count of R is 0, and the unread count of every other recipient is what it was before
  the request.
\<close>

theorem mark_all_read_clears_only_caller:
  assumes "status (fst (mark_all_read_route env auth s)) = 200"
    and "\<not> throws env Notification_countDocuments"
  shows "fst (getUnreadCount env (auth_userId auth) (snd (mark_all_read_route env auth s))) = Inr 0
       \<and> (\<forall>u. u \<noteq> auth_userId auth \<longrightarrow>
             fst (getUnreadCount env u (snd (mark_all_read_route env auth s)))
               = fst (getUnreadCount env u s))"
proof -
  from assms(1) have ok: "\<not> throws env Notification_updateMany"
    by (auto simp add: mark_all_read_route_cases split: if_splits)
  show ?thesis
    using assms(2) ok
    by (simp add: mark_all_read_route_cases getUnreadCount_def countUnread_markAll)
qed

theorem mark_all_read_clears_only_caller_witness:
  "status (fst (mark_all_read_route quiet_env user1 inbox_state)) = 200
   \<and> \<not> throws quiet_env Notification_countDocuments
   \<and> fst (getUnreadCount quiet_env 1 inbox_state) = Inr 5
   \<and> fst (getUnreadCount quiet_env 1 (snd (mark_all_read_route quiet_env user1 inbox_state))) = Inr 0
   \<and> fst (getUnreadCount quiet_env 2 inbox_state) = Inr 1
   \<and> fst (getUnreadCount quiet_env 2 (snd (mark_all_read_route quiet_env user1 inbox_state))) = Inr 1"
proof -
  have h1: "status (fst (mark_all_read_route quiet_env user1 inbox_state)) = 200"
    by (simp add: mark_all_read_route_cases quiet_env_def)
  have h2: "\<not> throws quiet_env Notification_countDocuments"
    by (simp add: quiet_env_def)
  have u: "auth_userId user1 = 1" by (simp add: user1_def)
  have b1: "fst (getUnreadCount quiet_env 1 inbox_state) = Inr 5"
    and b2: "fst (getUnreadCount quiet_env 2 inbox_state) = Inr 1"
    by (simp_all add: getUnreadCount_def quiet_env_def inbox_state_def plain_note_def)
  from mark_all_read_clears_only_caller [OF h1 h2]
  have "fst (getUnreadCount quiet_env 1 (snd (mark_all_read_route quiet_env user1 inbox_state))) = Inr 0"
    and "fst (getUnreadCount quiet_env 2 (snd (mark_all_read_route quiet_env user1 inbox_state)))
          = fst (getUnreadCount quiet_env 2 inbox_state)"
    by (simp_all add: u)
  with h1 h2 b1 b2 show ?thesis by simp
qed

section \<open>The mark-read request\<close>

declare string_of_nat.simps [simp del]

lemma string_of_nat_3: "string_of_nat 3 = ''3''" "string_of_nat (Suc (Suc (Suc 0))) = ''3''"
  by (simp_all add: string_of_nat.simps)

lemma toObjectIds_Inr: "toObjectIds ids = Inr oids \<Longrightarrow> ids = map ValidId oids"
proof (induction ids arbitrary: oids)
  case Nil
  then show ?case by simp
next
  case (Cons x xs)
  then show ?case by (cases x) (auto split: sum.splits)
qed

lemma toObjectIds_map: "toObjectIds (map ValidId oids) = Inr oids"
  by (induction oids) simp_all

lemma toObjectIds_Inl: "toObjectIds ids = Inl e \<Longrightarrow> \<exists>str. InvalidId str \<in> set ids"
proof (induction ids)
  case Nil
  then show ?case by simp
next
  case (Cons x xs)
  then show ?case by (cases x) (auto split: sum.splits)
qed

lemma mark_read_route_cases:
  "mark_read_route env auth ids s =
     (if ids = []
      then (\<lparr>status = 400,
              body = [(''error'', JString ''Validation failed''),
                      (''details'', JObject [(''notificationIds'',
                         JArray [JString ''At least one notification ID is required''])])]\<rparr>, s)
      else case toObjectIds ids of
        Inl e \<Rightarrow> (mark_read_failed e, console_error ''Error marking notifications as read:'' s)
      | Inr objectIds \<Rightarrow>
          if throws env Notification_find
          then (mark_read_failed (Rejected Notification_find),
                console_error ''Error marking notifications as read:'' s)
          else if length (filter (\<lambda>n. doc_id n \<in> set objectIds \<and> userId n = auth_userId auth)
                            (notifications s)) \<noteq> length objectIds
          then (\<lparr>status = 403,
                  body = [(''error'',
                    JString ''Some notifications do not belong to you or do not exist'')]\<rparr>, s)
          else if throws env Notification_updateMany
          then (mark_read_failed (Rejected Notification_updateMany),
                console_error ''Error marking notifications as read:'' s)
          else (\<lparr>status = 200,
                  body = [(''success'', JBool True),
                          (''message'', JString (string_of_nat (length objectIds)
                             @ '' notifications marked as read''))]\<rparr>,
                s\<lparr>notifications :=
                     map (\<lambda>n. if doc_id n \<in> set objectIds then n\<lparr>read := True\<rparr> else n)
                       (notifications s)\<rparr>))"
  by (simp add: mark_read_route_def mark_read_body_def markAsRead_def mark_read_failed_def Let_def
        split: sum.split)

lemma mark_read_route_200:
  assumes "status (fst (mark_read_route env auth ids s)) = 200"
  obtains objectIds where "toObjectIds ids = Inr objectIds"
    and "length (filter (\<lambda>n. doc_id n \<in> set objectIds \<and> userId n = auth_userId auth)
            (notifications s)) = length objectIds"
    and "mark_read_route env auth ids s =
          (\<lparr>status = 200,
            body = [(''success'', JBool True),
                    (''message'', JString (string_of_nat (length objectIds)
                       @ '' notifications marked as read''))]\<rparr>,
           s\<lparr>notifications :=
                map (\<lambda>n. if doc_id n \<in> set objectIds then n\<lparr>read := True\<rparr> else n)
                  (notifications s)\<rparr>)"
  using assms
  by (auto simp add: mark_read_route_cases mark_read_failed_def split: if_splits sum.splits)

lemma countUnread_mark:
  "countUnread u (map (\<lambda>n. if doc_id n \<in> S then n\<lparr>read := True\<rparr> else n) ns)
     + length (filter (\<lambda>n. doc_id n \<in> S \<and> userId n = u \<and> \<not> read n) ns)
   = countUnread u ns"
  by (induction ns) auto

text \<open>
  Claim C4, as amended. A successful mark-read request reports the number of ids
  requested, whether or not they were unread before. The unread count of the caller goes
  down by exactly the number of requested notifications that were unread.
\<close>

theorem mark_read_reports_requested_ids:
  assumes "status (fst (mark_read_route env auth ids s)) = 200"
  shows "\<exists>objectIds. ids = map ValidId objectIds
       \<and> body (fst (mark_read_route env auth ids s))
           = [(''success'', JBool True),
              (''message'', JString (string_of_nat (length ids) @ '' notifications marked as read''))]
       \<and> countUnread (auth_userId auth) (notifications (snd (mark_read_route env auth ids s)))
           + length (filter (\<lambda>n. doc_id n \<in> set objectIds \<and> userId n = auth_userId auth \<and> \<not> read n)
               (notifications s))
           = countUnread (auth_userId auth) (notifications s)"
proof -
  from mark_read_route_200 [OF assms] obtain objectIds where
    t: "toObjectIds ids = Inr objectIds"
    and r: "mark_read_route env auth ids s =
          (\<lparr>status = 200,
            body = [(''success'', JBool True),
                    (''message'', JString (string_of_nat (length objectIds)
                       @ '' notifications marked as read''))]\<rparr>,
           s\<lparr>notifications :=
                map (\<lambda>n. if doc_id n \<in> set objectIds then n\<lparr>read := True\<rparr> else n)
                  (notifications s)\<rparr>)"
    by blast
  have i: "ids = map ValidId objectIds" by (rule toObjectIds_Inr [OF t])
  then have l: "length objectIds = length ids" by simp
  have b: "body (fst (mark_read_route env auth ids s))
      = [(''success'', JBool True),
         (''message'', JString (string_of_nat (length ids) @ '' notifications marked as read''))]"
    by (simp only: r l fst_conv response.select_convs)
  have c: "countUnread (auth_userId auth) (notifications (snd (mark_read_route env auth ids s)))
           + length (filter (\<lambda>n. doc_id n \<in> set objectIds \<and> userId n = auth_userId auth \<and> \<not> read n)
               (notifications s))
           = countUnread (auth_userId auth) (notifications s)"
    by (simp add: r countUnread_mark)
  from i b c show ?thesis by blast
qed

theorem mark_read_reports_requested_ids_witness:
  "status (fst (mark_read_route quiet_env user1 [ValidId 0, ValidId 1, ValidId 5] inbox_state)) = 200
   \<and> body (fst (mark_read_route quiet_env user1 [ValidId 0, ValidId 1, ValidId 5] inbox_state))
       = [(''success'', JBool True), (''message'', JString ''3 notifications marked as read'')]"
proof -
  have h: "status (fst (mark_read_route quiet_env user1 [ValidId 0, ValidId 1, ValidId 5] inbox_state)) = 200"
    by (simp add: mark_read_route_cases quiet_env_def user1_def inbox_state_def plain_note_def)
  from mark_read_reports_requested_ids [OF h] show ?thesis
    using h by (auto simp add: string_of_nat_3)
qed

text \<open>The claim as stated fails: with five unread and three read notifications, a request
  for two unread ids and the read id 5 reports three notifications, not two; the unread
  count goes from 5 to 3.\<close>

theorem mark_read_count_counterexample:
  "fst (mark_read_route quiet_env user1 [ValidId 0, ValidId 1, ValidId 5] inbox_state)
     = \<lparr>status = 200,
        body = [(''success'', JBool True), (''message'', JString ''3 notifications marked as read'')]\<rparr>
   \<and> read (plain_note 5 1 True)
   \<and> countUnread 1 (notifications inbox_state) = 5
   \<and> countUnread 1 (notifications
        (snd (mark_read_route quiet_env user1 [ValidId 0, ValidId 1, ValidId 5] inbox_state))) = 3"
  by (simp add: mark_read_route_cases quiet_env_def user1_def inbox_state_def plain_note_def
        string_of_nat_3)

section \<open>Ownership checks of the mark-read and delete requests\<close>

lemma found_all_owned:
  assumes "distinct (map doc_id ns)"
    and "length (filter (\<lambda>n. doc_id n \<in> set oids \<and> userId n = u) ns) = length oids"
  shows "\<forall>i \<in> set oids. \<exists>n \<in> set ns. doc_id n = i \<and> userId n = u"
proof -
  let ?F = "filter (\<lambda>n. doc_id n \<in> set oids \<and> userId n = u) ns"
  have d: "distinct (map doc_id ?F)" using assms(1) by (rule distinct_map_filter)
  have sub: "set (map doc_id ?F) \<subseteq> set oids" by auto
  have "card (set (map doc_id ?F)) = length ?F"
    using distinct_card [OF d] by simp
  also have "\<dots> = length oids" by (rule assms(2))
  finally have c: "card (set (map doc_id ?F)) = length oids" .
  have "card (set oids) \<le> length oids" by (rule card_length)
  moreover have "card (set (map doc_id ?F)) \<le> card (set oids)"
    by (rule card_mono [OF _ sub]) simp
  ultimately have "card (set (map doc_id ?F)) = card (set oids)" using c by simp
  with sub have "set (map doc_id ?F) = set oids"
    by (simp add: card_subset_eq)
  then have "\<forall>i \<in> set oids. i \<in> set (map doc_id ?F)" by simp
  then show ?thesis by auto
qed

lemma owned_id_Valid:
  "owned_id auth s (ValidId i) = (\<exists>n \<in> set (notifications s). doc_id n = i \<and> userId n = auth_userId auth)"
  by (simp add: owned_id_def)

lemma owned_id_Invalid: "\<not> owned_id auth s (InvalidId str)"
  by (simp add: owned_id_def)

lemma mark_read_route_200_owned:
  assumes "wf_store s" and "status (fst (mark_read_route env auth ids s)) = 200"
  shows "\<forall>x \<in> set ids. owned_id auth s x"
proof -
  from mark_read_route_200 [OF assms(2)] obtain objectIds where
    t: "toObjectIds ids = Inr objectIds"
    and l: "length (filter (\<lambda>n. doc_id n \<in> set objectIds \<and> userId n = auth_userId auth)
            (notifications s)) = length objectIds"
    by blast
  from assms(1) have "distinct (map doc_id (notifications s))" by (simp add: wf_store_def)
  from found_all_owned [OF this l]
  have "\<forall>i \<in> set objectIds. owned_id auth s (ValidId i)" by (simp add: owned_id_Valid)
  then show ?thesis unfolding toObjectIds_Inr [OF t] by simp
qed

lemma mark_read_route_200_read:
  assumes "status (fst (mark_read_route env auth ids s)) = 200"
    and "n \<in> set (notifications (snd (mark_read_route env auth ids s)))"
    and "ValidId (doc_id n) \<in> set ids"
  shows "read n"
proof -
  from mark_read_route_200 [OF assms(1)] obtain objectIds where
    t: "toObjectIds ids = Inr objectIds"
    and r: "mark_read_route env auth ids s =
          (\<lparr>status = 200,
            body = [(''success'', JBool True),
                    (''message'', JString (string_of_nat (length objectIds)
                       @ '' notifications marked as read''))]\<rparr>,
           s\<lparr>notifications :=
                map (\<lambda>n. if doc_id n \<in> set objectIds then n\<lparr>read := True\<rparr> else n)
                  (notifications s)\<rparr>)"
    by blast
  from assms(3) have "doc_id n \<in> set objectIds"
    unfolding toObjectIds_Inr [OF t] by auto
  with assms(2) show ?thesis by (auto simp add: r split: if_splits)
qed

lemma mark_read_route_not_200:
  assumes "status (fst (mark_read_route env auth ids s)) \<noteq> 200"
  shows "notifications (snd (mark_read_route env auth ids s)) = notifications s"
  using assms
  by (simp add: mark_read_route_cases mark_read_failed_def split: if_splits sum.splits)

lemma mark_read_route_200_state:
  assumes "status (fst (mark_read_route env auth ids s)) = 200"
  shows "notifications (snd (mark_read_route env auth ids s))
     = map (\<lambda>n. if ValidId (doc_id n) \<in> set ids then n\<lparr>read := True\<rparr> else n) (notifications s)"
proof -
  from mark_read_route_200 [OF assms] obtain objectIds where
    t: "toObjectIds ids = Inr objectIds"
    and r: "mark_read_route env auth ids s =
          (\<lparr>status = 200,
            body = [(''success'', JBool True),
                    (''message'', JString (string_of_nat (length objectIds)
                       @ '' notifications marked as read''))]\<rparr>,
           s\<lparr>notifications :=
                map (\<lambda>n. if doc_id n \<in> set objectIds then n\<lparr>read := True\<rparr> else n)
                  (notifications s)\<rparr>)"
    by blast
  have "ValidId i \<in> set ids \<longleftrightarrow> i \<in> set objectIds" for i
    unfolding toObjectIds_Inr [OF t] by auto
  then show ?thesis by (simp add: r)
qed

lemma all_owned_found:
  assumes "distinct (map doc_id ns)" and "distinct oids"
    and "\<forall>i \<in> set oids. \<exists>n \<in> set ns. doc_id n = i \<and> userId n = u"
  shows "length (filter (\<lambda>n. doc_id n \<in> set oids \<and> userId n = u) ns) = length oids"
proof -
  let ?F = "filter (\<lambda>n. doc_id n \<in> set oids \<and> userId n = u) ns"
  have d: "distinct (map doc_id ?F)" using assms(1) by (rule distinct_map_filter)
  have "set (map doc_id ?F) = set oids"
  proof
    show "set (map doc_id ?F) \<subseteq> set oids" by auto
    show "set oids \<subseteq> set (map doc_id ?F)"
    proof
      fix i assume i: "i \<in> set oids"
      with assms(3) obtain n where "n \<in> set ns" "doc_id n = i" "userId n = u" by blast
      with i have "n \<in> set ?F" by simp
      then have "doc_id n \<in> set (map doc_id ?F)" by (simp only: set_map image_eqI)
      then show "i \<in> set (map doc_id ?F)" using \<open>doc_id n = i\<close> by simp
    qed
  qed
  then have "card (set (map doc_id ?F)) = card (set oids)" by simp
  then have "length (map doc_id ?F) = length oids"
    by (simp only: distinct_card [OF d] distinct_card [OF assms(2)])
  then show ?thesis by simp
qed

lemma mark_read_route_succeeds:
  assumes "wf_store s" and "ids \<noteq> []" and "distinct ids"
    and "\<forall>x \<in> set ids. owned_id auth s x"
    and "\<not> throws env Notification_find" and "\<not> throws env Notification_updateMany"
  shows "status (fst (mark_read_route env auth ids s)) = 200"
proof -
  define oids where "oids = map (\<lambda>x. case x of ValidId i \<Rightarrow> i | InvalidId str \<Rightarrow> 0) ids"
  have v: "ValidId (case x of ValidId i \<Rightarrow> i | InvalidId str \<Rightarrow> 0) = x" if "x \<in> set ids" for x
    using assms(4) that by (cases x) (auto simp add: owned_id_Invalid)
  have i: "ids = map ValidId oids"
    unfolding oids_def using v by (simp add: map_idI)
  from assms(3) have d: "distinct oids" unfolding i by (simp add: distinct_map)
  from assms(4) have o: "\<forall>i \<in> set oids. \<exists>n \<in> set (notifications s).
      doc_id n = i \<and> userId n = auth_userId auth"
    unfolding i by (simp add: owned_id_Valid)
  from assms(1) have "distinct (map doc_id (notifications s))" by (simp add: wf_store_def)
  from all_owned_found [OF this d o]
  have l: "length (filter (\<lambda>n. doc_id n \<in> set oids \<and> userId n = auth_userId auth)
            (notifications s)) = length oids" .
  from assms(2) have n: "oids \<noteq> []" unfolding i by simp
  show ?thesis
    unfolding i using n l assms(5,6) by (simp add: mark_read_route_cases toObjectIds_map)
qed

text \<open>
  Claim C9. On a store whose ids are unique, the mark-read request is all or nothing: if
  some requested id is malformed, does not exist or belongs to someone else, the request
  fails and no notification changes; a request that does not succeed changes no
  notification; a request succeeds only when every requested id is a notification of
  the caller, and then exactly the requested notifications are marked read: the
  collection afterwards is the collection before with the read flag of each requested
  notification set, and nothing else changed, added or removed. A request for ids of the
  caller, each given once, does succeed when the database fails neither the lookup nor
  the update.
\<close>

theorem mark_read_all_or_nothing:
  assumes "wf_store s"
  shows "((\<exists>x \<in> set ids. \<not> owned_id auth s x) \<longrightarrow>
            status (fst (mark_read_route env auth ids s)) \<noteq> 200
          \<and> notifications (snd (mark_read_route env auth ids s)) = notifications s)
       \<and> (status (fst (mark_read_route env auth ids s)) \<noteq> 200 \<longrightarrow>
            notifications (snd (mark_read_route env auth ids s)) = notifications s)
       \<and> (status (fst (mark_read_route env auth ids s)) = 200 \<longrightarrow>
            (\<forall>x \<in> set ids. owned_id auth s x)
          \<and> (\<forall>n \<in> set (notifications (snd (mark_read_route env auth ids s))).
                ValidId (doc_id n) \<in> set ids \<longrightarrow> read n)
          \<and> notifications (snd (mark_read_route env auth ids s))
              = map (\<lambda>n. if ValidId (doc_id n) \<in> set ids then n\<lparr>read := True\<rparr> else n)
                  (notifications s))
       \<and> (ids \<noteq> [] \<and> distinct ids \<and> (\<forall>x \<in> set ids. owned_id auth s x)
            \<and> \<not> throws env Notification_find \<and> \<not> throws env Notification_updateMany \<longrightarrow>
            status (fst (mark_read_route env auth ids s)) = 200)"
proof -
  let ?R = "mark_read_route env auth ids s"
  have a: "status (fst ?R) \<noteq> 200 \<longrightarrow> notifications (snd ?R) = notifications s"
    by (rule impI) (rule mark_read_route_not_200)
  have b: "status (fst ?R) = 200 \<longrightarrow>
            (\<forall>x \<in> set ids. owned_id auth s x)
          \<and> (\<forall>n \<in> set (notifications (snd ?R)). ValidId (doc_id n) \<in> set ids \<longrightarrow> read n)
          \<and> notifications (snd ?R)
              = map (\<lambda>n. if ValidId (doc_id n) \<in> set ids then n\<lparr>read := True\<rparr> else n)
                  (notifications s)"
  proof (intro impI conjI)
    assume h: "status (fst ?R) = 200"
    show "\<forall>x \<in> set ids. owned_id auth s x"
      by (rule mark_read_route_200_owned [OF assms h])
    show "\<forall>n \<in> set (notifications (snd ?R)). ValidId (doc_id n) \<in> set ids \<longrightarrow> read n"
      using mark_read_route_200_read [OF h] by blast
    show "notifications (snd ?R)
        = map (\<lambda>n. if ValidId (doc_id n) \<in> set ids then n\<lparr>read := True\<rparr> else n)
            (notifications s)"
      by (rule mark_read_route_200_state [OF h])
  qed
  have c: "(\<exists>x \<in> set ids. \<not> owned_id auth s x) \<longrightarrow>
            status (fst ?R) \<noteq> 200 \<and> notifications (snd ?R) = notifications s"
  proof (rule impI)
    assume e: "\<exists>x \<in> set ids. \<not> owned_id auth s x"
    have n: "status (fst ?R) \<noteq> 200"
    proof
      assume "status (fst ?R) = 200"
      from mark_read_route_200_owned [OF assms this] e show False by blast
    qed
    from n mark_read_route_not_200 [OF n]
    show "status (fst ?R) \<noteq> 200 \<and> notifications (snd ?R) = notifications s"
      by (rule conjI)
  qed
  have d: "ids \<noteq> [] \<and> distinct ids \<and> (\<forall>x \<in> set ids. owned_id auth s x)
            \<and> \<not> throws env Notification_find \<and> \<not> throws env Notification_updateMany \<longrightarrow>
            status (fst ?R) = 200"
  proof (rule impI, elim conjE)
    assume "ids \<noteq> []" "distinct ids" "\<forall>x \<in> set ids. owned_id auth s x"
      "\<not> throws env Notification_find" "\<not> throws env Notification_updateMany"
    then show "status (fst ?R) = 200" by (rule mark_read_route_succeeds [OF assms])
  qed
  show ?thesis by (intro conjI) (rule c, rule a, rule b, rule d)
qed

theorem mark_read_all_or_nothing_witness:
  "wf_store inbox_state
   \<and> \<not> owned_id user1 inbox_state (ValidId 20)
   \<and> status (fst (mark_read_route quiet_env user1 [ValidId 0, ValidId 20] inbox_state)) = 403
   \<and> notifications (snd (mark_read_route quiet_env user1 [ValidId 0, ValidId 20] inbox_state))
       = notifications inbox_state
   \<and> status (fst (mark_read_route quiet_env user1 [ValidId 0, InvalidId ''x''] inbox_state)) = 500
   \<and> notifications (snd (mark_read_route quiet_env user1 [ValidId 0, InvalidId ''x''] inbox_state))
       = notifications inbox_state
   \<and> status (fst (mark_read_route quiet_env user1 [ValidId 0, ValidId 1] inbox_state)) = 200
   \<and> owned_id user1 inbox_state (ValidId 0) \<and> owned_id user1 inbox_state (ValidId 1)
   \<and> map doc_id (notifications inbox_state) = [0, 1, 2, 3, 4, 5, 6, 7, 20]
   \<and> map read (notifications inbox_state)
       = [False, False, False, False, False, True, True, True, False]
   \<and> map doc_id (notifications
        (snd (mark_read_route quiet_env user1 [ValidId 0, ValidId 1] inbox_state)))
       = [0, 1, 2, 3, 4, 5, 6, 7, 20]
   \<and> map read (notifications
        (snd (mark_read_route quiet_env user1 [ValidId 0, ValidId 1] inbox_state)))
       = [True, True, False, False, False, True, True, True, False]
   \<and> distinct [ValidId 2, ValidId 3 :: id_param]
   \<and> owned_id user1 inbox_state (ValidId 2) \<and> owned_id user1 inbox_state (ValidId 3)
   \<and> status (fst (mark_read_route quiet_env user1 [ValidId 2, ValidId 3] inbox_state)) = 200
   \<and> map read (notifications
        (snd (mark_read_route quiet_env user1 [ValidId 2, ValidId 3] inbox_state)))
       = [False, False, True, True, False, True, True, True, False]"
proof -
  have w: "wf_store inbox_state"
    by (simp add: wf_store_def inbox_state_def plain_note_def)
  have o: "\<not> owned_id user1 inbox_state (ValidId 20)"
    by (simp add: owned_id_def user1_def inbox_state_def plain_note_def)
  have o23: "owned_id user1 inbox_state (ValidId 2)" "owned_id user1 inbox_state (ValidId 3)"
    by (simp_all add: owned_id_def user1_def inbox_state_def plain_note_def)
  have q: "\<not> throws quiet_env c" for c by (simp add: quiet_env_def)
  have before: "map doc_id (notifications inbox_state) = [0, 1, 2, 3, 4, 5, 6, 7, 20]"
    "map read (notifications inbox_state)
       = [False, False, False, False, False, True, True, True, False]"
    by (simp_all add: inbox_state_def plain_note_def)
  have s1: "status (fst (mark_read_route quiet_env user1 [ValidId 0, ValidId 20] inbox_state)) = 403"
    by (simp add: mark_read_route_cases quiet_env_def user1_def inbox_state_def plain_note_def)
  have s2: "status (fst (mark_read_route quiet_env user1 [ValidId 0, InvalidId ''x''] inbox_state)) = 500"
    by (simp add: mark_read_route_cases mark_read_failed_def)
  have s3: "status (fst (mark_read_route quiet_env user1 [ValidId 0, ValidId 1] inbox_state)) = 200"
    by (simp add: mark_read_route_cases quiet_env_def user1_def inbox_state_def plain_note_def)
  note m1 = mark_read_all_or_nothing [OF w, of "[ValidId 0, ValidId 20]" user1 quiet_env]
  have "\<exists>x \<in> set [ValidId 0, ValidId 20]. \<not> owned_id user1 inbox_state x"
    using o by simp
  from m1 [THEN conjunct1, THEN mp, OF this, THEN conjunct2]
  have u1: "notifications (snd (mark_read_route quiet_env user1 [ValidId 0, ValidId 20] inbox_state))
       = notifications inbox_state" .
  note m2 = mark_read_all_or_nothing [OF w, of "[ValidId 0, InvalidId ''x'']" user1 quiet_env]
  have "status (fst (mark_read_route quiet_env user1 [ValidId 0, InvalidId ''x''] inbox_state)) \<noteq> 200"
    by (simp add: s2)
  from m2 [THEN conjunct2, THEN conjunct1, THEN mp, OF this]
  have u2: "notifications (snd (mark_read_route quiet_env user1 [ValidId 0, InvalidId ''x''] inbox_state))
       = notifications inbox_state" .
  note m3 = mark_read_all_or_nothing [OF w, of "[ValidId 0, ValidId 1]" user1 quiet_env,
      THEN conjunct2, THEN conjunct2, THEN conjunct1, THEN mp, OF s3]
  from m3 [THEN conjunct1]
  have u3: "owned_id user1 inbox_state (ValidId 0) \<and> owned_id user1 inbox_state (ValidId 1)"
    by simp
  note n3 = m3 [THEN conjunct2, THEN conjunct2]
  have after: "map doc_id (notifications
        (snd (mark_read_route quiet_env user1 [ValidId 0, ValidId 1] inbox_state)))
       = [0, 1, 2, 3, 4, 5, 6, 7, 20]"
    "map read (notifications
        (snd (mark_read_route quiet_env user1 [ValidId 0, ValidId 1] inbox_state)))
       = [True, True, False, False, False, True, True, True, False]"
    unfolding n3 by (simp_all add: inbox_state_def plain_note_def)
  note m4 = mark_read_all_or_nothing [OF w, of "[ValidId 2, ValidId 3]" user1 quiet_env]
  have "[ValidId 2, ValidId 3] \<noteq> [] \<and> distinct [ValidId 2, ValidId 3 :: id_param]
      \<and> (\<forall>x \<in> set [ValidId 2, ValidId 3]. owned_id user1 inbox_state x)
      \<and> \<not> throws quiet_env Notification_find \<and> \<not> throws quiet_env Notification_updateMany"
    by (simp add: o23 q)
  from m4 [THEN conjunct2, THEN conjunct2, THEN conjunct2, THEN mp, OF this]
  have s4: "status (fst (mark_read_route quiet_env user1 [ValidId 2, ValidId 3] inbox_state)) = 200" .
  note n4 = m4 [THEN conjunct2, THEN conjunct2, THEN conjunct1, THEN mp, OF s4,
      THEN conjunct2, THEN conjunct2]
  have after4: "map read (notifications
        (snd (mark_read_route quiet_env user1 [ValidId 2, ValidId 3] inbox_state)))
       = [False, False, True, True, False, True, True, True, False]"
    unfolding n4 by (simp add: inbox_state_def plain_note_def)
  from w o s1 s2 s3 u1 u2 u3 before after o23 s4 after4 show ?thesis by simp
qed

section \<open>Foreign and absent ids\<close>

lemma filter_own:
  "filter (\<lambda>n. P n \<and> userId n = u) (notifications s) = filter P (own u s)"
  by (simp add: own_def conj_commute)

lemma find_filter: "find P (filter Q xs) = find (\<lambda>x. P x \<and> Q x) xs"
  by (induction xs) simp_all

lemma find_own:
  "find (\<lambda>n. P n \<and> userId n = u) (notifications s) = find P (own u s)"
  by (simp add: own_def find_filter)

lemma find_None_iff_owned:
  "find (\<lambda>n. doc_id n = i \<and> userId n = auth_userId auth) (notifications s) = None
     \<longleftrightarrow> \<not> owned_id auth s (ValidId i)"
  by (auto simp add: find_None_iff owned_id_def)

lemma delete_notification_route_response:
  "fst (delete_notification_route env auth idp s) =
     (case idp of
        InvalidId str \<Rightarrow> \<lparr>status = 400, body = [(''error'', JString ''Invalid notification ID'')]\<rparr>
      | ValidId i \<Rightarrow>
          if throws env Notification_findOne then delete_failed (Rejected Notification_findOne)
          else if find (\<lambda>n. doc_id n = i) (own (auth_userId auth) s) = None
          then \<lparr>status = 404,
                body = [(''error'', JString ''Notification not found or does not belong to you'')]\<rparr>
          else if throws env (Notification_findByIdAndDelete i)
          then delete_failed (Rejected (Notification_findByIdAndDelete i))
          else \<lparr>status = 200,
                body = [(''success'', JBool True),
                        (''message'', JString ''Notification deleted successfully'')]\<rparr>)"
  by (simp add: delete_notification_route_def delete_notification_body_def delete_failed_def
        find_own [symmetric] split: id_param.split option.split)

lemma mark_read_route_response:
  "fst (mark_read_route env auth ids s) =
     (if ids = []
      then \<lparr>status = 400,
             body = [(''error'', JString ''Validation failed''),
                     (''details'', JObject [(''notificationIds'',
                        JArray [JString ''At least one notification ID is required''])])]\<rparr>
      else case toObjectIds ids of
        Inl e \<Rightarrow> mark_read_failed e
      | Inr objectIds \<Rightarrow>
          if throws env Notification_find then mark_read_failed (Rejected Notification_find)
          else if length (filter (\<lambda>n. doc_id n \<in> set objectIds) (own (auth_userId auth) s))
                    \<noteq> length objectIds
          then \<lparr>status = 403,
                 body = [(''error'',
                   JString ''Some notifications do not belong to you or do not exist'')]\<rparr>
          else if throws env Notification_updateMany
          then mark_read_failed (Rejected Notification_updateMany)
          else \<lparr>status = 200,
                 body = [(''success'', JBool True),
                         (''message'', JString (string_of_nat (length objectIds)
                            @ '' notifications marked as read''))]\<rparr>)"
  by (simp add: mark_read_route_cases filter_own [symmetric] split: sum.split)

lemma foreign_id_not_found:
  assumes "distinct (map doc_id ns)" and "i \<in> set oids"
    and "\<not> (\<exists>n \<in> set ns. doc_id n = i \<and> userId n = u)"
  shows "length (filter (\<lambda>n. doc_id n \<in> set oids \<and> userId n = u) ns) \<noteq> length oids"
  using found_all_owned [OF assms(1), of oids u] assms(2,3) by blast

text \<open>
  Claim C2, as amended. What the mark-read and delete requests answer depends on the
  store only through the caller's own notifications: two stores that hold the same
  notifications of the caller give the same response, whatever they hold for others. In
  particular an id that belongs to someone else is answered exactly as an id that does
  not exist: with 404 by the delete request, and with 403 by the mark-read request (on a
  store whose ids are unique, when every requested id is well formed and the queries do
  not fail).
\<close>

theorem foreign_id_answered_as_absent:
  assumes "own (auth_userId auth) s1 = own (auth_userId auth) s2"
  shows "fst (mark_read_route env auth ids s1) = fst (mark_read_route env auth ids s2)
       \<and> fst (delete_notification_route env auth idp s1)
           = fst (delete_notification_route env auth idp s2)
       \<and> (\<not> owned_id auth s1 (ValidId i) \<and> \<not> throws env Notification_findOne \<longrightarrow>
            status (fst (delete_notification_route env auth (ValidId i) s1)) = 404
          \<and> status (fst (delete_notification_route env auth (ValidId i) s2)) = 404)
       \<and> (wf_store s1 \<and> \<not> owned_id auth s1 (ValidId i) \<and> i \<in> set objectIds
            \<and> \<not> throws env Notification_find \<longrightarrow>
            status (fst (mark_read_route env auth (map ValidId objectIds) s1)) = 403
          \<and> status (fst (mark_read_route env auth (map ValidId objectIds) s2)) = 403)"
proof -
  have m: "fst (mark_read_route env auth xs s1) = fst (mark_read_route env auth xs s2)" for xs
    by (simp only: mark_read_route_response assms)
  have d: "fst (delete_notification_route env auth x s1)
         = fst (delete_notification_route env auth x s2)" for x
    by (simp only: delete_notification_route_response assms)
  have d404: "status (fst (delete_notification_route env auth (ValidId i) s1)) = 404"
    if "\<not> owned_id auth s1 (ValidId i)" "\<not> throws env Notification_findOne"
    using that find_None_iff_owned [of i auth s1]
    by (simp add: delete_notification_route_def delete_notification_body_def)
  have m403: "status (fst (mark_read_route env auth (map ValidId objectIds) s1)) = 403"
    if "wf_store s1" "\<not> owned_id auth s1 (ValidId i)" "i \<in> set objectIds"
      "\<not> throws env Notification_find"
  proof -
    from that(1) have "distinct (map doc_id (notifications s1))" by (simp add: wf_store_def)
    from foreign_id_not_found [OF this that(3), of "auth_userId auth"] that(2)
    have "length (filter (\<lambda>n. doc_id n \<in> set objectIds \<and> userId n = auth_userId auth)
            (notifications s1)) \<noteq> length objectIds"
      by (simp add: owned_id_Valid)
    moreover from that(3) have "objectIds \<noteq> []" by auto
    ultimately show ?thesis
      using that(4) by (simp add: mark_read_route_cases toObjectIds_map)
  qed
  show ?thesis using m d d404 m403 by metis
qed

theorem foreign_id_answered_as_absent_witness:
  "own (auth_userId user1) inbox_state = own (auth_userId user1) inbox_state'
   \<and> plain_note 20 2 False \<in> set (notifications inbox_state)
   \<and> 20 \<notin> doc_id ` set (notifications inbox_state')
   \<and> fst (mark_read_route quiet_env user1 [ValidId 0, ValidId 20] inbox_state)
       = fst (mark_read_route quiet_env user1 [ValidId 0, ValidId 20] inbox_state')
   \<and> fst (delete_notification_route quiet_env user1 (ValidId 20) inbox_state)
       = fst (delete_notification_route quiet_env user1 (ValidId 20) inbox_state')
   \<and> status (fst (delete_notification_route quiet_env user1 (ValidId 20) inbox_state)) = 404
   \<and> status (fst (mark_read_route quiet_env user1 (map ValidId [0, 20]) inbox_state)) = 403"
proof -
  have h: "own (auth_userId user1) inbox_state = own (auth_userId user1) inbox_state'"
    by (simp add: own_def user1_def inbox_state_def inbox_state'_def plain_note_def)
  have a: "plain_note 20 2 False \<in> set (notifications inbox_state)"
    by (simp add: inbox_state_def)
  have b: "20 \<notin> doc_id ` set (notifications inbox_state')"
    by (simp add: inbox_state'_def plain_note_def)
  have w: "wf_store inbox_state"
    by (simp add: wf_store_def inbox_state_def plain_note_def)
  have o: "\<not> owned_id user1 inbox_state (ValidId 20)"
    by (simp add: owned_id_def user1_def inbox_state_def plain_note_def)
  have q: "\<not> throws quiet_env Notification_findOne" "\<not> throws quiet_env Notification_find"
    by (simp_all add: quiet_env_def)
  have i: "(20::nat) \<in> set [0, 20]" by simp
  from foreign_id_answered_as_absent [OF h, of quiet_env "[ValidId 0, ValidId 20]" "ValidId 20" 20 "[0, 20]"]
    w o q i h a b
  show ?thesis by simp
qed

text \<open>The claim as stated fails: the mark-read request answers the foreign id 20 and the
  absent id 20 alike, but with 403 and not with NotFound.\<close>

theorem mark_read_foreign_id_counterexample:
  "plain_note 20 2 False \<in> set (notifications inbox_state)
   \<and> 20 \<notin> doc_id ` set (notifications inbox_state')
   \<and> status (fst (mark_read_route quiet_env user1 [ValidId 20] inbox_state)) = 403
   \<and> status (fst (mark_read_route quiet_env user1 [ValidId 20] inbox_state')) = 403"
  by (simp add: mark_read_route_cases quiet_env_def user1_def inbox_state_def inbox_state'_def
        plain_note_def)

section \<open>Pagination\<close>

lemma int_le_div_iff:
  fixes a b l :: int
  assumes "0 < l"
  shows "a \<le> b div l \<longleftrightarrow> a * l \<le> b"
proof
  assume "a \<le> b div l"
  then have "a * l \<le> (b div l) * l" using assms by (simp add: mult_right_mono)
  moreover have "b div l * l + b mod l = b" by simp
  moreover have "0 \<le> b mod l" using assms by simp
  ultimately show "a * l \<le> b" by linarith
next
  assume "a * l \<le> b"
  then have "(a * l) div l \<le> b div l" using assms by (rule zdiv_mono1)
  then show "a \<le> b div l" using assms by simp
qed

lemma pages_gt_iff:
  fixes page limit total :: int
  assumes "1 \<le> limit"
  shows "page < (total + limit - 1) div limit \<longleftrightarrow> page * limit < total"
proof -
  have "page < (total + limit - 1) div limit \<longleftrightarrow> page + 1 \<le> (total + limit - 1) div limit"
    by auto
  also have "\<dots> \<longleftrightarrow> (page + 1) * limit \<le> total + limit - 1"
    using assms by (simp add: int_le_div_iff)
  also have "\<dots> \<longleftrightarrow> page * limit < total"
    by (auto simp add: algebra_simps)
  finally show ?thesis .
qed

lemma getUserNotifications_result:
  assumes "1 \<le> page" "1 \<le> limit"
    and "\<not> throws env Notification_find" "\<not> throws env Notification_countDocuments"
  shows "getUserNotifications env u page limit s =
     Some (Inr \<lparr>un_notifications = take (nat limit) (drop (nat ((page - 1) * limit)) (rev (own u s))),
                pagination = [(''page'', page), (''limit'', limit),
                              (''total'', int (length (own u s))),
                              (''pages'', (int (length (own u s)) + limit - 1) div limit)],
                unreadCount = countUnread u (notifications s)\<rparr>, s)"
  using assms by (simp add: getUserNotifications_def getUnreadCount_def own_def Let_def)

lemma length_own_many: "length (own 1 many_state) = 45" "length (own (Suc 0) many_state) = 45"
  by (simp_all add: own_def many_state_def plain_note_def filter_map comp_def)

text \<open>
  Claim C5, as amended. For \<open>page \<ge> 1\<close> and \<open>limit \<ge> 1\<close>, when the queries do not fail,
  \<^verbatim>\<open>getUserNotifications\<close> returns the recipient's notifications of that page, newest
  first, the recipient's unread count, and a pagination object with exactly the keys
  \<^verbatim>\<open>page\<close>, \<^verbatim>\<open>limit\<close>, \<^verbatim>\<open>total\<close> and \<^verbatim>\<open>pages\<close>, where \<^verbatim>\<open>pages\<close> is the total divided
  by the limit, rounded up. There is no \<^verbatim>\<open>hasNextPage\<close> and no \<^verbatim>\<open>hasPrevPage\<close>; a next
  page exists, \<open>page * limit < total\<close>, exactly when \<open>page < pages\<close>.
\<close>

theorem getUserNotifications_pagination:
  assumes "1 \<le> page" "1 \<le> limit"
    and "\<not> throws env Notification_find" "\<not> throws env Notification_countDocuments"
  shows "\<exists>r. getUserNotifications env u page limit s = Some (Inr r, s)
     \<and> un_notifications r = take (nat limit) (drop (nat ((page - 1) * limit)) (rev (own u s)))
     \<and> length (un_notifications r) = min (nat limit) (length (own u s) - nat ((page - 1) * limit))
     \<and> pagination r = [(''page'', page), (''limit'', limit), (''total'', int (length (own u s))),
                        (''pages'', (int (length (own u s)) + limit - 1) div limit)]
     \<and> map_of (pagination r) ''hasNextPage'' = None
     \<and> map_of (pagination r) ''hasPrevPage'' = None
     \<and> (page * limit < int (length (own u s)))
         = (page < (int (length (own u s)) + limit - 1) div limit)
     \<and> unreadCount r = countUnread u (notifications s)"
  using pages_gt_iff [OF assms(2), of page "int (length (own u s))"]
  by (simp add: getUserNotifications_result [OF assms])

theorem getUserNotifications_pagination_witness:
  "(\<exists>r. getUserNotifications quiet_env 1 2 20 many_state = Some (Inr r, many_state)
      \<and> length (un_notifications r) = 20
      \<and> pagination r = [(''page'', 2), (''limit'', 20), (''total'', 45), (''pages'', 3)])
   \<and> (\<exists>r. getUserNotifications quiet_env 1 3 20 many_state = Some (Inr r, many_state)
      \<and> length (un_notifications r) = 5
      \<and> pagination r = [(''page'', 3), (''limit'', 20), (''total'', 45), (''pages'', 3)])"
proof -
  have q: "\<not> throws quiet_env Notification_find" "\<not> throws quiet_env Notification_countDocuments"
    by (simp_all add: quiet_env_def)
  from getUserNotifications_pagination [OF _ _ q, of 2 20 1 many_state]
  have p2: "\<exists>r. getUserNotifications quiet_env 1 2 20 many_state = Some (Inr r, many_state)
      \<and> length (un_notifications r) = 20
      \<and> pagination r = [(''page'', 2), (''limit'', 20), (''total'', 45), (''pages'', 3)]"
    by (auto simp add: length_own_many)
  from getUserNotifications_pagination [OF _ _ q, of 3 20 1 many_state]
  have p3: "\<exists>r. getUserNotifications quiet_env 1 3 20 many_state = Some (Inr r, many_state)
      \<and> length (un_notifications r) = 5
      \<and> pagination r = [(''page'', 3), (''limit'', 20), (''total'', 45), (''pages'', 3)]"
    by (auto simp add: length_own_many)
  from p2 p3 show ?thesis by blast
qed

text \<open>The claim as stated fails: for the recipient with 45 notifications, the pagination
  object of page 2 has the keys \<^verbatim>\<open>page\<close>, \<^verbatim>\<open>limit\<close>, \<^verbatim>\<open>total\<close> and \<^verbatim>\<open>pages\<close>, and neither
  \<^verbatim>\<open>hasNextPage\<close> nor \<^verbatim>\<open>hasPrevPage\<close>.\<close>

theorem pagination_fields_counterexample:
  "\<exists>r. getUserNotifications quiet_env 1 2 20 many_state = Some (Inr r, many_state)
     \<and> map fst (pagination r) = [''page'', ''limit'', ''total'', ''pages'']
     \<and> map_of (pagination r) ''hasNextPage'' = None
     \<and> map_of (pagination r) ''hasPrevPage'' = None"
proof -
  have q: "\<not> throws quiet_env Notification_find" "\<not> throws quiet_env Notification_countDocuments"
    by (simp_all add: quiet_env_def)
  show ?thesis
    by (simp add: getUserNotifications_result [OF _ _ q])
qed

section \<open>Monotonic flags\<close>

lemma distinct_ids_eq:
  assumes "distinct (map doc_id ns)" "n \<in> set ns" "m \<in> set ns" "doc_id n = doc_id m"
  shows "n = m"
  using assms by (meson distinct_map inj_onD)

lemma evolves_map:
  assumes "wf_store s"
    and "notifications s' = map f (notifications s)" and "nextId s' = nextId s"
    and "\<And>n. doc_id (f n) = doc_id n"
    and "\<And>n. read n \<Longrightarrow> read (f n)" and "\<And>n. emailSent n \<Longrightarrow> emailSent (f n)"
  shows "evolves s s'"
proof -
  have ids: "map doc_id (notifications s') = map doc_id (notifications s)"
    by (simp add: assms(2,4) comp_def)
  have d: "distinct (map doc_id (notifications s))" using assms(1) by (simp add: wf_store_def)
  have "set (notifications s') = f ` set (notifications s)" by (simp add: assms(2))
  then have "\<forall>n \<in> set (notifications s'). doc_id n < nextId s'"
    using assms(1) by (auto simp add: wf_store_def assms(3,4))
  moreover have "distinct (map doc_id (notifications s'))" by (simp only: ids d)
  ultimately have w: "wf_store s'" by (simp add: wf_store_def)
  have m: "flags_monotone (notifications s) (notifications s')"
    unfolding flags_monotone_def
  proof (intro ballI impI)
    fix n n' assume n: "n \<in> set (notifications s)" and n': "n' \<in> set (notifications s')"
      and e: "doc_id n' = doc_id n"
    from n' obtain m where m: "m \<in> set (notifications s)" "n' = f m"
      by (auto simp add: assms(2))
    with e have "doc_id m = doc_id n" by (simp add: assms(4))
    from distinct_ids_eq [OF d m(1) n this] have "m = n" .
    with m show "(read n \<longrightarrow> read n') \<and> (emailSent n \<longrightarrow> emailSent n')"
      by (simp add: assms(5,6))
  qed
  have r: "\<forall>n' \<in> set (notifications s'). doc_id n' < nextId s \<longrightarrow>
             doc_id n' \<in> doc_id ` set (notifications s)"
    by (auto simp add: assms(2,4))
  show ?thesis unfolding evolves_def using w m r by (simp add: assms(3))
qed

lemma evolves_same:
  assumes "wf_store s" and "notifications s' = notifications s" and "nextId s' = nextId s"
  shows "evolves s s'"
  by (rule evolves_map [OF assms(1), of s' "\<lambda>n. n"]) (simp_all add: assms)

lemma evolves_filter:
  assumes "wf_store s"
    and "notifications s' = filter P (notifications s)" and "nextId s' = nextId s"
  shows "evolves s s'"
proof -
  have d: "distinct (map doc_id (notifications s))" using assms(1) by (simp add: wf_store_def)
  have w: "wf_store s'"
    using assms(1) by (auto simp add: wf_store_def assms(2,3) distinct_map_filter)
  have m: "flags_monotone (notifications s) (notifications s')"
    unfolding flags_monotone_def
  proof (intro ballI impI)
    fix n n' assume n: "n \<in> set (notifications s)" and n': "n' \<in> set (notifications s')"
      and e: "doc_id n' = doc_id n"
    from n' have "n' \<in> set (notifications s)" by (simp add: assms(2))
    from distinct_ids_eq [OF d this n e] have "n' = n" .
    then show "(read n \<longrightarrow> read n') \<and> (emailSent n \<longrightarrow> emailSent n')" by simp
  qed
  show ?thesis unfolding evolves_def using w m by (auto simp add: assms(2,3))
qed

lemma evolves_insert:
  assumes "wf_store s"
    and "notifications s' = notifications s @ [n0]" and "doc_id n0 = nextId s"
    and "nextId s' = Suc (nextId s)"
  shows "evolves s s'"
proof -
  have d: "distinct (map doc_id (notifications s))"
    and b: "\<forall>n \<in> set (notifications s). doc_id n < nextId s"
    using assms(1) by (simp_all add: wf_store_def)
  have w: "wf_store s'"
    using d b by (auto simp add: wf_store_def assms(2,3,4) less_Suc_eq)
  have m: "flags_monotone (notifications s) (notifications s')"
    unfolding flags_monotone_def
  proof (intro ballI impI)
    fix n n' assume n: "n \<in> set (notifications s)" and n': "n' \<in> set (notifications s')"
      and e: "doc_id n' = doc_id n"
    from n b have "doc_id n < nextId s" by simp
    with e have "n' \<noteq> n0" using assms(3) by auto
    with n' have "n' \<in> set (notifications s)" by (simp add: assms(2))
    from distinct_ids_eq [OF d this n e] have "n' = n" .
    then show "(read n \<longrightarrow> read n') \<and> (emailSent n \<longrightarrow> emailSent n')" by simp
  qed
  show ?thesis unfolding evolves_def using w m by (auto simp add: assms(2,3,4))
qed

lemma evolves_trans:
  assumes "wf_store s" and "evolves s s1" and "evolves s1 s2"
  shows "evolves s s2"
proof -
  have b: "\<forall>n \<in> set (notifications s). doc_id n < nextId s"
    using assms(1) by (simp add: wf_store_def)
  from assms(2) have le1: "nextId s \<le> nextId s1"
    and m1: "flags_monotone (notifications s) (notifications s1)"
    and r1: "\<forall>n' \<in> set (notifications s1). doc_id n' < nextId s \<longrightarrow>
               doc_id n' \<in> doc_id ` set (notifications s)"
    by (simp_all add: evolves_def)
  from assms(3) have w2: "wf_store s2" and le2: "nextId s1 \<le> nextId s2"
    and m2: "flags_monotone (notifications s1) (notifications s2)"
    and r2: "\<forall>n' \<in> set (notifications s2). doc_id n' < nextId s1 \<longrightarrow>
               doc_id n' \<in> doc_id ` set (notifications s1)"
    by (simp_all add: evolves_def)
  have m: "flags_monotone (notifications s) (notifications s2)"
    unfolding flags_monotone_def
  proof (intro ballI impI)
    fix n n2 assume n: "n \<in> set (notifications s)" and n2: "n2 \<in> set (notifications s2)"
      and e: "doc_id n2 = doc_id n"
    from n b have "doc_id n < nextId s" by simp
    with e le1 have "doc_id n2 < nextId s1" by simp
    with r2 n2 obtain n1 where n1: "n1 \<in> set (notifications s1)" "doc_id n1 = doc_id n2"
      by force
    from m1 n n1 e have "(read n \<longrightarrow> read n1) \<and> (emailSent n \<longrightarrow> emailSent n1)"
      by (simp add: flags_monotone_def)
    moreover from m2 n1 n2 have "(read n1 \<longrightarrow> read n2) \<and> (emailSent n1 \<longrightarrow> emailSent n2)"
      by (simp add: flags_monotone_def)
    ultimately show "(read n \<longrightarrow> read n2) \<and> (emailSent n \<longrightarrow> emailSent n2)" by blast
  qed
  have r: "\<forall>n' \<in> set (notifications s2). doc_id n' < nextId s \<longrightarrow>
             doc_id n' \<in> doc_id ` set (notifications s)"
  proof (intro ballI impI)
    fix n2 assume n2: "n2 \<in> set (notifications s2)" and l: "doc_id n2 < nextId s"
    with le1 have "doc_id n2 < nextId s1" by simp
    with r2 n2 obtain n1 where n1: "n1 \<in> set (notifications s1)" "doc_id n1 = doc_id n2"
      by force
    from n1 l have "doc_id n1 < nextId s" by simp
    with r1 n1(1) have "doc_id n1 \<in> doc_id ` set (notifications s)" by blast
    then show "doc_id n2 \<in> doc_id ` set (notifications s)" by (simp add: n1(2))
  qed
  show ?thesis unfolding evolves_def using w2 le1 le2 m r by simp
qed

lemma evolves_wf: "evolves s s' \<Longrightarrow> wf_store s'"
  by (simp add: evolves_def)

lemma evolves_console:
  "wf_store s \<Longrightarrow> evolves s s' \<Longrightarrow> evolves s (console_error l s')"
  by (rule evolves_trans [of s s']) (auto intro: evolves_same evolves_wf)

lemma evolves_refl: "wf_store s \<Longrightarrow> evolves s s"
  by (rule evolves_same) simp_all


lemma evolves_read_map:
  assumes "wf_store s"
    and "notifications s' = map (\<lambda>n. if P n then n\<lparr>read := True\<rparr> else n) (notifications s)"
    and "nextId s' = nextId s"
  shows "evolves s s'"
  by (rule evolves_map [OF assms]) simp_all

lemma sendEmail_notifications:
  "notifications (snd (sendEmailNotification env n s)) = notifications s
   \<or> notifications (snd (sendEmailNotification env n s)) = markEmailSent (doc_id n) (notifications s)"
  by (simp add: sendEmailNotification_def sendEmailNotification_body_def Let_def
        split: option.split)

lemma sendEmail_evolves:
  assumes "wf_store s"
  shows "evolves s (snd (sendEmailNotification env n s))"
  using sendEmail_notifications [of env n s]
proof
  assume "notifications (snd (sendEmailNotification env n s)) = notifications s"
  then show ?thesis by (rule evolves_same [OF assms]) (rule sendEmail_frame)
next
  assume "notifications (snd (sendEmailNotification env n s))
            = markEmailSent (doc_id n) (notifications s)"
  then have "notifications (snd (sendEmailNotification env n s))
      = map (\<lambda>m. if doc_id m = doc_id n then m\<lparr>emailSent := True\<rparr> else m) (notifications s)"
    by (simp add: markEmailSent_def)
  from evolves_map [OF assms this sendEmail_frame(1)] show ?thesis by simp
qed

lemma markEmailSent_read: "map read (markEmailSent i ns) = map read ns"
  by (induction ns) (simp_all add: markEmailSent_def)

lemma sendEmail_read:
  "map read (notifications (snd (sendEmailNotification env n s))) = map read (notifications s)"
  using sendEmail_notifications [of env n s] by (auto simp add: markEmailSent_read)

lemma create_evolves:
  assumes "wf_store s"
  shows "evolves s (snd (createNotification env d s))"
proof (cases "accepted env d")
  case False
  then show ?thesis
    by (simp add: create_rejected evolves_console [OF assms evolves_refl [OF assms]])
next
  case True
  let ?n = "newDocument (nextId s) d"
  let ?s1 = "s\<lparr>notifications := notifications s @ [?n], nextId := Suc (nextId s)\<rparr>"
  let ?s2 = "if socketIO env then ?s1\<lparr>emitted := emitted ?s1 @ [(nd_userId d, ?n)]\<rparr> else ?s1"
  have e2: "evolves s ?s2"
    by (rule evolves_insert [OF assms, of _ ?n]) (simp_all add: newDocument_def)
  then have "evolves s (snd (sendEmailNotification env ?n ?s2))"
    by (rule evolves_trans [OF assms]) (rule sendEmail_evolves [OF evolves_wf [OF e2]])
  with e2 show ?thesis
    by (simp add: create_accepted_state [OF True] Let_def)
qed

lemma createAll_evolves:
  "wf_store s \<Longrightarrow> evolves s (snd (createAll env ds s))"
proof (induction ds arbitrary: s)
  case Nil
  then show ?case by (simp add: evolves_refl)
next
  case (Cons d ds)
  obtain r s1 where c: "createNotification env d s = (r, s1)"
    by (cases "createNotification env d s")
  obtain rs s2 where a: "createAll env ds s1 = (rs, s2)"
    by (cases "createAll env ds s1")
  from create_evolves [OF Cons.prems, of env d] c have e1: "evolves s s1" by simp
  from Cons.IH [OF evolves_wf [OF e1]] a have "evolves s1 s2" by simp
  from evolves_trans [OF Cons.prems e1 this] show ?case by (simp add: c a)
qed

lemma caught_state:
  "snd (try_catch X (\<lambda>e s'. (Inr (), console_error l s'))) = snd X
   \<or> snd (try_catch X (\<lambda>e s'. (Inr (), console_error l s'))) = console_error l (snd X)"
  by (cases X) (auto simp: try_catch_def split: sum.split)

lemma caught_evolves:
  assumes "wf_store s" and "evolves s (snd X)"
  shows "evolves s (snd (try_catch X (\<lambda>e s'. (Inr (), console_error l s'))))"
  using caught_state [of X l] assms evolves_console [OF assms] by auto

lemma awaitAll_evolves:
  "wf_store s \<Longrightarrow> evolves s (fst (snd (awaitAll env ds s)))"
proof (induction ds arbitrary: s)
  case Nil
  then show ?case by (simp add: evolves_refl)
next
  case (Cons d ds)
  obtain r s1 where c: "createNotification env d s = (r, s1)"
    by (cases "createNotification env d s")
  from create_evolves [OF Cons.prems, of env d] c have e1: "evolves s s1" by simp
  show ?case
  proof (cases r)
    case (Inl e)
    with c e1 show ?thesis by simp
  next
    case (Inr n)
    obtain r2 s2 pending where a: "awaitAll env ds s1 = (r2, s2, pending)"
      by (cases "awaitAll env ds s1")
    from Cons.IH [OF evolves_wf [OF e1]] a have "evolves s1 s2" by simp
    from evolves_trans [OF Cons.prems e1 this] show ?thesis
      using c Inr a by (cases r2) simp_all
  qed
qed

lemma fanOut_body_state: "snd (fanOut_body env ds s) = fst (snd (awaitAll env ds s))"
  by (simp add: fanOut_body_def split: prod.split sum.split)

lemma outcome_case_snd:
  "snd (case X of (Inl e, s1) \<Rightarrow> (Inl e, s1) | (Inr x, s1) \<Rightarrow> (Inr (), s1)) = snd X"
  by (cases X) (simp split: sum.split)

lemma notifyTrip_body_state:
  "snd (notifyTrip_body build env tid s) = s
   \<or> (\<exists>d. snd (notifyTrip_body build env tid s) = snd (createNotification env d s))"
proof (cases "throws env (Trip_findById Service tid)")
  case True
  then show ?thesis by (simp add: notifyTrip_body_def)
next
  case False
  show ?thesis
  proof (cases "find (\<lambda>t. trip_id t = tid) (trips s)")
    case None
    with False show ?thesis by (simp add: notifyTrip_body_def)
  next
    case (Some trip)
    show ?thesis
    proof (cases "find (\<lambda>u. user_id u = organizerId trip) (users s)")
      case None
      with False Some show ?thesis by (simp add: notifyTrip_body_def)
    next
      case (Some org)
      with False \<open>find (\<lambda>t. trip_id t = tid) (trips s) = Some trip\<close>
      have "snd (notifyTrip_body build env tid s) = snd (createNotification env (build trip org) s)"
        by (simp add: notifyTrip_body_def outcome_case_snd)
      then show ?thesis by blast
    qed
  qed
qed

lemma notifyTrip_body_evolves:
  assumes "wf_store s"
  shows "evolves s (snd (notifyTrip_body build env tid s))"
  using notifyTrip_body_state [of build env tid s] create_evolves [OF assms, of env]
    evolves_refl [OF assms]
  by auto

lemma markAsRead_evolves:
  assumes "wf_store s"
  shows "evolves s (snd (markAsRead env ids s))"
proof (cases "throws env Notification_updateMany")
  case True
  then show ?thesis by (simp add: markAsRead_def evolves_refl [OF assms])
next
  case False
  then show ?thesis
    by (auto simp add: markAsRead_def intro!: evolves_read_map [OF assms])
qed

lemma markAsRead_emailSent:
  "map emailSent (notifications (snd (markAsRead env ids s))) = map emailSent (notifications s)"
  by (auto simp add: markAsRead_def comp_def intro!: map_cong)

lemma mark_read_route_evolves:
  assumes "wf_store s"
  shows "evolves s (snd (mark_read_route env auth ids s))"
  by (auto simp add: mark_read_route_cases evolves_refl [OF assms]
        evolves_console [OF assms evolves_refl [OF assms]]
        intro!: evolves_read_map [OF assms] split: sum.split)

lemma mark_all_read_route_evolves:
  assumes "wf_store s"
  shows "evolves s (snd (mark_all_read_route env auth s))"
  by (auto simp add: mark_all_read_route_cases
        evolves_console [OF assms evolves_refl [OF assms]]
        intro!: evolves_read_map [OF assms])

lemma delete_notification_route_state:
  "snd (delete_notification_route env auth idp s) = s
   \<or> snd (delete_notification_route env auth idp s) = console_error ''Error deleting notification:'' s
   \<or> (\<exists>i. snd (delete_notification_route env auth idp s)
          = s\<lparr>notifications := filter (\<lambda>n. doc_id n \<noteq> i) (notifications s)\<rparr>)"
  by (auto simp add: delete_notification_route_def delete_notification_body_def
        split: id_param.split option.split)

lemma delete_notification_route_evolves:
  assumes "wf_store s"
  shows "evolves s (snd (delete_notification_route env auth idp s))"
  using delete_notification_route_state [of env auth idp s]
proof (elim disjE exE)
  assume "snd (delete_notification_route env auth idp s) = s"
  then show ?thesis by (simp add: evolves_refl [OF assms])
next
  assume "snd (delete_notification_route env auth idp s)
            = console_error ''Error deleting notification:'' s"
  then show ?thesis by (simp add: evolves_console [OF assms evolves_refl [OF assms]])
next
  fix i
  assume "snd (delete_notification_route env auth idp s)
            = s\<lparr>notifications := filter (\<lambda>n. doc_id n \<noteq> i) (notifications s)\<rparr>"
  then show ?thesis by (simp add: evolves_filter [OF assms])
qed

lemma run_evolves:
  assumes "wf_store s"
  shows "evolves s (run env op s)"
proof (cases op)
  case (Create d)
  then show ?thesis by (simp add: create_evolves [OF assms])
next
  case (SendEmail n)
  then show ?thesis by (simp add: sendEmail_evolves [OF assms])
next
  case (MarkAsRead ids)
  then show ?thesis by (simp add: markAsRead_evolves [OF assms])
next
  case (MarkRead auth ids)
  then show ?thesis by (simp add: mark_read_route_evolves [OF assms])
next
  case (MarkAllRead auth)
  then show ?thesis by (simp add: mark_all_read_route_evolves [OF assms])
next
  case (Delete auth i)
  then show ?thesis by (simp add: delete_notification_route_evolves [OF assms])
next
  case (TripJoin tid nm u)
  then show ?thesis
    by (simp add: notifyTripJoin_def caught_evolves [OF assms notifyTrip_body_evolves [OF assms]])
next
  case (TripLeave tid nm u)
  then show ?thesis
    by (simp add: notifyTripLeave_def caught_evolves [OF assms notifyTrip_body_evolves [OF assms]])
next
  case (TripDeleted tid tt ps org)
  have "evolves s (snd (fanOut_body env (map (tripDeletedData tid tt org) ps) s))"
    by (simp add: fanOut_body_state awaitAll_evolves [OF assms])
  with TripDeleted show ?thesis
    by (simp add: notifyTripDeleted_def caught_evolves [OF assms])
next
  case (TripUpdate tid tt ps org cs)
  have "evolves s (snd (fanOut_body env (map (tripUpdateData tid tt org cs) ps) s))"
    by (simp add: fanOut_body_state awaitAll_evolves [OF assms])
  with TripUpdate show ?thesis
    by (simp add: notifyTripUpdate_def caught_evolves [OF assms])
qed

text \<open>
  Claim C7. On a store whose ids are unique, no operation of the pipeline (creation, email
  dispatch, marking as read in the service and in the two routes, deletion, and the four
  event builders) sets \<^verbatim>\<open>read\<close> or \<^verbatim>\<open>emailSent\<close> of a stored notification back to false,
  and each operation keeps the ids unique. A notification is created with both flags
  false. The flags are independent: marking as read changes no \<^verbatim>\<open>emailSent\<close> flag and the
  email dispatch changes no \<^verbatim>\<open>read\<close> flag.
\<close>

theorem flags_only_go_up:
  assumes "wf_store s"
  shows "flags_monotone (notifications s) (notifications (run env op s))
       \<and> wf_store (run env op s)
       \<and> \<not> read (newDocument i d) \<and> \<not> emailSent (newDocument i d)
       \<and> map emailSent (notifications (run env (MarkAsRead ids) s)) = map emailSent (notifications s)
       \<and> map read (notifications (run env (SendEmail n) s)) = map read (notifications s)"
  using run_evolves [OF assms, of env op]
  by (simp add: evolves_def markAsRead_emailSent sendEmail_read newDocument_def)

theorem flags_only_go_up_witness:
  "wf_store one_note_state
   \<and> flags_monotone (notifications one_note_state)
       (notifications (run quiet_env (MarkAllRead user1) one_note_state))
   \<and> map read (notifications one_note_state) = [False]
   \<and> map emailSent (notifications one_note_state) = [False]
   \<and> map read (notifications (run quiet_env (MarkAsRead [0]) one_note_state)) = [True]
   \<and> map emailSent (notifications (run quiet_env (MarkAsRead [0]) one_note_state)) = [False]
   \<and> map read (notifications (run quiet_env (SendEmail (plain_note 0 1 False)) one_note_state)) = [False]
   \<and> map emailSent (notifications (run quiet_env (SendEmail (plain_note 0 1 False)) one_note_state))
       = [True]"
proof -
  have w: "wf_store one_note_state"
    by (simp add: wf_store_def one_note_state_def plain_note_def)
  have i: "map read (notifications one_note_state) = [False]"
    "map emailSent (notifications one_note_state) = [False]"
    by (simp_all add: one_note_state_def plain_note_def)
  have r: "map read (notifications (run quiet_env (MarkAsRead [0]) one_note_state)) = [True]"
    by (simp add: markAsRead_def quiet_env_def one_note_state_def plain_note_def)
  have e: "map emailSent (notifications
      (run quiet_env (SendEmail (plain_note 0 1 False)) one_note_state)) = [True]"
    by (simp add: sendEmailNotification_def sendEmailNotification_body_def markEmailSent_def
          quiet_env_def one_note_state_def three_users_def plain_note_def Let_def)
  from flags_only_go_up [OF w, of quiet_env "MarkAllRead user1" 0 welcome_note "[0]" "plain_note 0 1 False"]
  show ?thesis using w i r e by simp
qed

end
